theory Spec2Isabelle
  imports
    Complex_Main
    "HOL-Library.Word"
    "HOL-Library.Char_ord"
    "HOL-Library.List_Lexorder"
    "HOL-Library.Sublist"
    "HOL-Library.AList"
begin

chapter \<open>Chango-Assistant: persistent tools, telemetry, webhook and sentinel\<close>

text \<open>
  A shallow embedding of the Go sources: the telemetry tracker (package telemetry),
  the webhook channel (package channels), the sentinel service (package sentinel) and
  the persistent tools of package tools (snippets, tasks, notes, reminders).

  Conventions.
  \<^item> A Go \<open>string\<close> is a byte sequence: \<^typ>\<open>string\<close>, compared bytewise
    (\<open>==\<close>) and lexicographically by bytes (\<open><\<close>).
  \<^item> \<open>int64\<close> is \<^typ>\<open>64 word\<close>; \<open>+=\<close> and \<open>++\<close> wrap.
  \<^item> \<open>time.Now()\<close> is an input of each operation: either the formatted text the code
    derives from it, or, for the sentinel, a reading in nanoseconds of a clock.
  \<^item> A JSON file is held by what it parses to; \<open>json.Unmarshal\<close> after
    \<open>json.MarshalIndent\<close> returns the value written.
  \<^item> \<open>fmt.Sprintf\<close> with \<open>%s\<close> is concatenation, \<open>%d\<close> is \<open>itoa\<close>.
\<close>

section \<open>Shared vocabulary\<close>

type_synonym int64 = "64 word"

text \<open>The results a tool hands back (\<open>SilentResult(..)\<close>, \<open>ErrorResult(..)\<close>).\<close>

datatype ToolResult = SilentResult string | ErrorResult string

text \<open>
  What \<open>os.ReadFile\<close> followed by \<open>json.Unmarshal\<close> can meet at a path: no file
  (\<open>os.IsNotExist\<close>), another read error, bytes for which \<open>json.Unmarshal\<close> returns
  an error, or a parsed value. The strings are the texts of the Go errors. With its
  error \<open>json.Unmarshal\<close> leaves in the target what it had decoded: nothing after a
  syntax error, the fields of the right type after a type error; \<open>Corrupt\<close> carries it.
\<close>

datatype 'a jsonfile = NotExist string | ReadError string | Corrupt string 'a | Parsed 'a

text \<open>
  A store is the file of one tool together with the fate of the next write:
  \<open>writeErr = Some e\<close> makes \<open>os.WriteFile\<close> return \<open>e\<close> and leave the file as it was.
\<close>

record 'a store =
  contents :: "'a jsonfile"
  writeErr :: "string option"

definition WriteFile :: "'a store \<Rightarrow> 'a \<Rightarrow> 'a store \<times> string option" where
  "WriteFile st v =
     (case writeErr st of
        Some e \<Rightarrow> (st, Some e)
      | None \<Rightarrow> (st\<lparr>contents := Parsed v\<rparr>, None))"

text \<open>\<open>strings.Join(elems, sep)\<close>.\<close>

fun Join :: "string list \<Rightarrow> string \<Rightarrow> string" where
  "Join [] sep = []"
| "Join [x] sep = x"
| "Join (x # y # ys) sep = x @ sep @ Join (y # ys) sep"

text \<open>Decimal rendering, \<open>%d\<close>.\<close>

definition digit_char :: "nat \<Rightarrow> char" where
  "digit_char d = char_of (48 + d)"

function digits :: "nat \<Rightarrow> string" where
  "digits n = (if n < 10 then [digit_char n] else digits (n div 10) @ [digit_char (n mod 10)])"
  by pat_completeness auto
termination
  by (relation "measure id") auto

definition itoa :: "int \<Rightarrow> string" where
  "itoa i = (if i < 0 then CHR ''-'' # digits (nat (- i)) else digits (nat i))"

section \<open>Telemetry tracker\<close>

record FeatureBucket =
  PromptTokens :: int64
  CompletionTokens :: int64
  TotalTokens :: int64
  Calls :: int64

text \<open>
  \<open>Features\<close> is a Go map from feature name to a pointer to its bucket: an association
  list with one entry per key, updated in place through the pointer.
\<close>

record DayBucket =
  Date :: string
  Features :: "(string \<times> FeatureBucket) list"
  Totals :: FeatureBucket

text \<open>\<open>TelemetryData.Days\<close> and the \<open>dirty\<close> flag of the tracker.\<close>

record Tracker =
  Days :: "DayBucket list"
  dirty :: bool

definition zeroBucket :: FeatureBucket where
  "zeroBucket = \<lparr>PromptTokens = 0, CompletionTokens = 0, TotalTokens = 0, Calls = 0\<rparr>"

text \<open>\<open>load\<close>: a missing, unreadable or unparseable file starts fresh.\<close>

definition load :: "DayBucket list jsonfile \<Rightarrow> DayBucket list" where
  "load f = (case f of Parsed days \<Rightarrow> days | _ \<Rightarrow> [])"

definition NewTracker :: "DayBucket list jsonfile \<Rightarrow> Tracker" where
  "NewTracker f = \<lparr>Days = load f, dirty = False\<rparr>"

text \<open>The loop of \<open>getOrCreateDay\<close> and \<open>GetDay\<close>: the first bucket of that date.\<close>

fun findDay :: "string \<Rightarrow> DayBucket list \<Rightarrow> nat option" where
  "findDay date [] = None"
| "findDay date (d # ds) =
     (if Date d = date then Some 0 else map_option Suc (findDay date ds))"

text \<open>\<open>getOrCreateDay\<close> returns the list and the position its pointer refers to.\<close>

definition getOrCreateDay :: "string \<Rightarrow> DayBucket list \<Rightarrow> DayBucket list \<times> nat" where
  "getOrCreateDay date days =
     (case findDay date days of
        Some i \<Rightarrow> (days, i)
      | None \<Rightarrow> (days @ [\<lparr>Date = date, Features = [], Totals = zeroBucket\<rparr>], length days))"

definition addUsage :: "int64 \<Rightarrow> int64 \<Rightarrow> int64 \<Rightarrow> FeatureBucket \<Rightarrow> FeatureBucket" where
  "addUsage p c t fb =
     \<lparr>PromptTokens = PromptTokens fb + p,
      CompletionTokens = CompletionTokens fb + c,
      TotalTokens = TotalTokens fb + t,
      Calls = Calls fb + 1\<rparr>"

text \<open>The body of \<open>Record\<close> once the day's bucket is in hand.\<close>

definition recordInto :: "string \<Rightarrow> int64 \<Rightarrow> int64 \<Rightarrow> int64 \<Rightarrow> DayBucket \<Rightarrow> DayBucket" where
  "recordInto feature p c t bucket =
     (let fb = (case map_of (Features bucket) feature of
                  Some fb \<Rightarrow> fb
                | None \<Rightarrow> zeroBucket)
      in bucket\<lparr>Features := AList.update feature (addUsage p c t fb) (Features bucket),
                Totals := addUsage p c t (Totals bucket)\<rparr>)"

text \<open>\<open>Record(feature, prompt, completion, total)\<close> on the day \<open>today\<close>.\<close>

definition Record :: "string \<Rightarrow> string \<Rightarrow> int64 \<Rightarrow> int64 \<Rightarrow> int64 \<Rightarrow> Tracker \<Rightarrow> Tracker" where
  "Record today feature p c t tr =
     (if t = 0 \<and> p = 0 \<and> c = 0 then tr
      else
        let (days, i) = getOrCreateDay today (Days tr)
        in \<lparr>Days = days[i := recordInto feature p c t (days ! i)], dirty = True\<rparr>)"

text \<open>\<open>GetDay\<close> (the copy it returns is the value itself).\<close>

definition GetDay :: "string \<Rightarrow> Tracker \<Rightarrow> DayBucket option" where
  "GetDay date tr = map_option (\<lambda>i. Days tr ! i) (findDay date (Days tr))"

text \<open>
  \<open>prune\<close>: \<open>cutoff\<close> is \<open>time.Now().AddDate(0, 0, -keepDays).Format("2006-01-02")\<close>.
\<close>

definition prune :: "string \<Rightarrow> Tracker \<Rightarrow> Tracker" where
  "prune cutoff tr = tr\<lparr>Days := filter (\<lambda>d. Date d \<ge> cutoff) (Days tr)\<rparr>"

text \<open>
  \<open>Flush\<close>, with \<open>cutoff\<close> the date thirty days before now. The write is to
  \<open>telemetry.json.tmp\<close>, then a rename; either failing leaves the file as it was.
\<close>

definition Flush :: "string \<Rightarrow> Tracker \<times> DayBucket list store \<Rightarrow> Tracker \<times> DayBucket list store" where
  "Flush cutoff ts =
     (let (tr, st) = ts in
      if \<not> dirty tr then (tr, st)
      else
        let tr' = (prune cutoff tr)\<lparr>dirty := False\<rparr>
        in (tr', fst (WriteFile st (Days tr'))))"

text \<open>A run of \<open>Record\<close> calls, each with the date it saw and its arguments.\<close>

type_synonym usage = "string \<times> string \<times> int64 \<times> int64 \<times> int64"

fun records :: "usage list \<Rightarrow> Tracker \<Rightarrow> Tracker" where
  "records [] tr = tr"
| "records ((today, feature, p, c, t) # cs) tr = records cs (Record today feature p c t tr)"

text \<open>The field-wise sum over the entries of \<open>Features\<close>.\<close>

definition sumFeatures :: "(string \<times> FeatureBucket) list \<Rightarrow> FeatureBucket" where
  "sumFeatures fs =
     \<lparr>PromptTokens = sum_list (map (PromptTokens \<circ> snd) fs),
      CompletionTokens = sum_list (map (CompletionTokens \<circ> snd) fs),
      TotalTokens = sum_list (map (TotalTokens \<circ> snd) fs),
      Calls = sum_list (map (Calls \<circ> snd) fs)\<rparr>"

section \<open>Webhook channel\<close>

record webhookPayload =
  Source :: string
  Event :: string
  payloadContent :: string
  payloadMetadata :: "string \<rightharpoonup> string"

text \<open>
  What the handler reads of an \<open>http.Request\<close>: the method, the \<open>Authorization\<close>
  header (\<open>Header.Get\<close> gives the empty string when there is none) and what
  \<open>io.ReadAll(r.Body)\<close> returns, \<open>Inl\<close> for an error.
\<close>

record request =
  Method :: string
  Authorization :: string
  Body :: "string + string"

record response =
  StatusCode :: nat
  respBody :: string

text \<open>The arguments \<open>processEvent\<close> passes to \<open>HandleMessage\<close>.\<close>

record inbound =
  msgSenderID :: string
  msgChatID :: string
  msgContent :: string
  msgMedia :: "string list"
  msgMetadata :: "string \<rightharpoonup> string"

text \<open>\<open>http.Error(w, msg, code)\<close> writes the message and a newline.\<close>

definition httpError :: "string \<Rightarrow> nat \<Rightarrow> response" where
  "httpError msg code = \<lparr>StatusCode = code, respBody = msg @ [CHR 0x0A]\<rparr>"

definition isUpperASCII :: "char \<Rightarrow> bool" where
  "isUpperASCII c \<longleftrightarrow> 65 \<le> (of_char c :: nat) \<and> (of_char c :: nat) \<le> 90"

text \<open>
  \<open>strings.EqualFold\<close>. The loop over bytes is the one of the Go library: equal bytes,
  or an upper-case ASCII letter against its lower-case form. At the first byte that is
  not ASCII (\<open>sr|tr >= utf8.RuneSelf\<close>) the library goes on rune by rune with the
  Unicode tables of \<open>unicode.SimpleFold\<close>; that continuation on the two remainders is the
  parameter \<open>uf\<close>.
\<close>

fun EqualFold :: "(string \<Rightarrow> string \<Rightarrow> bool) \<Rightarrow> string \<Rightarrow> string \<Rightarrow> bool" where
  "EqualFold uf [] [] = True"
| "EqualFold uf [] (tr # t) = False"
| "EqualFold uf (sr # s) [] = False"
| "EqualFold uf (sr # s) (tr # t) =
     (if (of_char sr :: nat) \<ge> 128 \<or> (of_char tr :: nat) \<ge> 128 then uf (sr # s) (tr # t)
      else if tr = sr then EqualFold uf s t
      else
        let lo = min sr tr; hi = max sr tr
        in if isUpperASCII lo \<and> (of_char hi :: nat) = of_char lo + 32 then EqualFold uf s t
           else False)"

definition processEvent :: "webhookPayload \<Rightarrow> inbound" where
  "processEvent payload =
     \<lparr>msgSenderID = ''webhook:'' @ Source payload,
      msgChatID = ''webhook:'' @ Source payload @ '':'' @ Event payload,
      msgContent = ''[Webhook: '' @ Source payload @ ''/'' @ Event payload @ ''] ''
                   @ payloadContent payload,
      msgMedia = [],
      msgMetadata =
        [''platform'' \<mapsto> ''webhook'', ''source'' \<mapsto> Source payload,
         ''event'' \<mapsto> Event payload] ++ payloadMetadata payload\<rparr>"

text \<open>
  \<open>handler\<close>: \<open>Unmarshal\<close> is \<open>json.Unmarshal\<close> into a \<open>webhookPayload\<close>
  (\<open>Inl\<close> its error), \<open>Secret\<close> is \<open>c.config.Secret\<close>. The result is the response
  written and, when the event is accepted, the message \<open>processEvent\<close> hands on.
\<close>

definition statusOK :: string where
  "statusOK = ''{'' @ [CHR 0x22] @ ''status'' @ [CHR 0x22] @ '':'' @ [CHR 0x22] @ ''ok''
              @ [CHR 0x22] @ ''}''"

definition handler ::
  "(string \<Rightarrow> string \<Rightarrow> bool) \<Rightarrow> (string \<Rightarrow> string + webhookPayload) \<Rightarrow> string \<Rightarrow> request
     \<Rightarrow> response \<times> inbound option" where
  "handler uf Unmarshal Secret r =
     (if Method r \<noteq> ''POST'' then (httpError ''Method not allowed'' 405, None)
      else if Secret \<noteq> [] \<and> \<not> EqualFold uf (Authorization r) (''Bearer '' @ Secret)
      then (httpError ''Unauthorized'' 401, None)
      else
        case Body r of
          Inl e \<Rightarrow> (httpError ''Bad request'' 400, None)
        | Inr body \<Rightarrow>
            (case Unmarshal body of
               Inl e \<Rightarrow> (httpError ''Bad request'' 400, None)
             | Inr payload \<Rightarrow>
                 if payloadContent payload = [] then (httpError ''content is required'' 400, None)
                 else (\<lparr>StatusCode = 200, respBody = statusOK\<rparr>, Some (processEvent payload))))"

section \<open>Sentinel\<close>

record OutboundMessage =
  outChannel :: string
  outChatID :: string
  outContent :: string

record SentinelState =
  LastCheck :: int
  UptimeSeconds :: int
  CPUTempC :: real
  RAMTotalMB :: int
  RAMAvailableMB :: int
  RAMUsedPercent :: real
  DiskTotalGB :: real
  DiskFreeGB :: real
  DiskUsedPercent :: real
  Alerts :: "string list"

text \<open>
  What one run of \<open>collect\<close> reads from outside: the results of \<open>readCPUTemp\<close>,
  \<open>readRAM\<close> and \<open>readDisk\<close>, and the answer of \<open>s.state.GetLastChannel()\<close>.
\<close>

record readings =
  cpuTempC :: real
  ramTotalMB :: int
  ramAvailableMB :: int
  ramUsedPercent :: real
  diskTotalGB :: real
  diskFreeGB :: real
  diskUsedPercent :: real
  lastChannel :: string

text \<open>
  The service. \<open>bus\<close> says whether \<open>s.bus\<close> is set. Times are nanoseconds; the
  \<open>n\<close>-th reading of the clock by the service is \<open>clock n\<close>, and \<open>reads\<close> counts the
  readings taken. \<open>outbox\<close> lists the messages given to \<open>PublishOutbound\<close>, each with the
  time recorded for it in \<open>lastAlertTime\<close>; \<open>disk\<close> is the file \<open>state/sentinel.json\<close>.
\<close>

record Service =
  bus :: bool
  startTime :: int
  lastAlertTime :: "string \<rightharpoonup> int"
  reads :: nat
  outbox :: "(int \<times> OutboundMessage) list"
  disk :: "SentinelState store"

definition Hour :: int where
  "Hour = 3600000000000"

definition NewService :: "SentinelState store \<Rightarrow> Service" where
  "NewService d =
     \<lparr>bus = False, startTime = 0, lastAlertTime = Map.empty, reads = 0, outbox = [],
      disk = d\<rparr>"

definition SetBus :: "bool \<Rightarrow> Service \<Rightarrow> Service" where
  "SetBus b s = s\<lparr>bus := b\<rparr>"

text \<open>\<open>strings.SplitN(s, ":", 2)\<close>.\<close>

definition SplitN2 :: "string \<Rightarrow> string list" where
  "SplitN2 s =
     (if CHR '':'' \<in> set s
      then [takeWhile (\<lambda>c. c \<noteq> CHR '':'') s, tl (dropWhile (\<lambda>c. c \<noteq> CHR '':'') s)]
      else [s])"

definition parseLastChannel :: "string \<Rightarrow> string \<times> string" where
  "parseLastChannel lc =
     (if lc = [] then ([], [])
      else
        case SplitN2 lc of
          [platform, userID] \<Rightarrow> if platform = [] \<or> userID = [] then ([], []) else (platform, userID)
        | _ \<Rightarrow> ([], []))"

text \<open>The warning sign and the space that \<open>sendAlert\<close> puts before the alert (UTF-8).\<close>

definition warnPrefix :: string where
  "warnPrefix = [CHR 0xE2, CHR 0x9A, CHR 0xA0, CHR 0xEF, CHR 0xB8, CHR 0x8F, CHR 0x20]"

text \<open>
  \<open>sendAlert\<close>. \<open>isInternal\<close> is \<open>constants.IsInternalChannel\<close>. When the alert has
  no recorded time, \<open>time.Since\<close> is not evaluated and the clock is read once only.
\<close>

definition sendAlert ::
  "(string \<Rightarrow> bool) \<Rightarrow> (nat \<Rightarrow> int) \<Rightarrow> string \<Rightarrow> string \<Rightarrow> Service \<Rightarrow> Service" where
  "sendAlert isInternal clock lc alert s =
     (let limited = (case lastAlertTime s alert of
                       Some lastTime \<Rightarrow> clock (reads s) - lastTime < Hour
                     | None \<Rightarrow> False);
          s0 = (case lastAlertTime s alert of
                  Some lastTime \<Rightarrow> s\<lparr>reads := reads s + 1\<rparr>
                | None \<Rightarrow> s)
      in if limited then s0
         else
           let now = clock (reads s0);
               s1 = s0\<lparr>lastAlertTime := (lastAlertTime s0)(alert \<mapsto> now), reads := reads s0 + 1\<rparr>
           in if \<not> bus s1 then s1
              else if lc = [] then s1
              else
                let (platform, userID) = parseLastChannel lc
                in if platform = [] \<or> userID = [] \<or> isInternal platform then s1
                   else s1\<lparr>outbox := outbox s1 @
                          [(now, \<lparr>outChannel = platform, outChatID = userID,
                                  outContent = warnPrefix @ alert\<rparr>)]\<rparr>)"

text \<open>
  The thresholds of \<open>collect\<close>; \<open>fmtFloat\<close> is the rendering \<open>%.1f\<close> of a float.
\<close>

definition buildAlerts :: "(real \<Rightarrow> string) \<Rightarrow> readings \<Rightarrow> string list" where
  "buildAlerts fmtFloat r =
     (if cpuTempC r > 80
      then [''CPU temperatura alta: '' @ fmtFloat (cpuTempC r) @ [CHR 0xC2, CHR 0xB0] @ ''C'']
      else [])
     @ (if ramUsedPercent r > 90
        then [''RAM cr'' @ [CHR 0xC3, CHR 0xAD] @ ''tica: '' @ fmtFloat (ramUsedPercent r) @ ''% usada'']
        else [])
     @ (if diskUsedPercent r > 95
        then [''Disco casi lleno: '' @ fmtFloat (diskUsedPercent r) @ ''% usado'']
        else [])"

text \<open>\<open>saveState\<close>: write \<open>sentinel.json.tmp\<close>, rename; a failure is logged only.\<close>

definition saveState :: "SentinelState \<Rightarrow> Service \<Rightarrow> Service" where
  "saveState st s = s\<lparr>disk := fst (WriteFile (disk s) st)\<rparr>"

fun sendAlerts ::
  "(string \<Rightarrow> bool) \<Rightarrow> (nat \<Rightarrow> int) \<Rightarrow> string \<Rightarrow> string list \<Rightarrow> Service \<Rightarrow> Service" where
  "sendAlerts isInternal clock lc [] s = s"
| "sendAlerts isInternal clock lc (alert # alerts) s =
     sendAlerts isInternal clock lc alerts (sendAlert isInternal clock lc alert s)"

text \<open>
  The \<open>SentinelState\<close> that \<open>collect\<close> builds: two readings of the clock, for
  \<open>LastCheck\<close> and for the uptime (whole seconds, rounded towards zero), the metrics
  read, and the alerts.
\<close>

definition snapshot :: "(nat \<Rightarrow> int) \<Rightarrow> (real \<Rightarrow> string) \<Rightarrow> readings \<Rightarrow> Service \<Rightarrow> SentinelState" where
  "snapshot clock fmtFloat r s =
     (let up = clock (reads s + 1) - startTime s
      in \<lparr>LastCheck = clock (reads s),
          UptimeSeconds = sgn up * (\<bar>up\<bar> div 1000000000),
          CPUTempC = cpuTempC r,
          RAMTotalMB = ramTotalMB r,
          RAMAvailableMB = ramAvailableMB r,
          RAMUsedPercent = ramUsedPercent r,
          DiskTotalGB = diskTotalGB r,
          DiskFreeGB = diskFreeGB r,
          DiskUsedPercent = diskUsedPercent r,
          Alerts = buildAlerts fmtFloat r\<rparr>)"

text \<open>\<open>collect\<close>: the snapshot, \<open>saveState\<close>, then \<open>sendAlert\<close> for each alert.\<close>

definition collect ::
  "(string \<Rightarrow> bool) \<Rightarrow> (nat \<Rightarrow> int) \<Rightarrow> (real \<Rightarrow> string) \<Rightarrow> readings \<Rightarrow> Service \<Rightarrow> Service" where
  "collect isInternal clock fmtFloat r s =
     (let st = snapshot clock fmtFloat r s
      in sendAlerts isInternal clock (lastChannel r) (Alerts st)
           (saveState st (s\<lparr>reads := reads s + 2\<rparr>)))"

text \<open>\<open>loop\<close>: one \<open>collect\<close> at the start and one on every tick.\<close>

fun loop ::
  "(string \<Rightarrow> bool) \<Rightarrow> (nat \<Rightarrow> int) \<Rightarrow> (real \<Rightarrow> string) \<Rightarrow> readings list \<Rightarrow> Service \<Rightarrow> Service" where
  "loop isInternal clock fmtFloat [] s = s"
| "loop isInternal clock fmtFloat (r # rs) s =
     loop isInternal clock fmtFloat rs (collect isInternal clock fmtFloat r s)"

section \<open>Tool arguments\<close>

text \<open>
  \<open>args map[string]interface{}\<close>: the values the tools look at are strings and arrays;
  every other JSON value is \<open>Other\<close>.
\<close>

datatype any = Str string | Arr "any list" | Other

type_synonym args = "string \<rightharpoonup> any"

text \<open>\<open>v, _ := args[k].(string)\<close>: the empty string unless a string is there.\<close>

definition argString :: "args \<Rightarrow> string \<Rightarrow> string" where
  "argString a k = (case a k of Some (Str v) \<Rightarrow> v | _ \<Rightarrow> [])"

text \<open>\<open>v, ok := args[k].(string)\<close>.\<close>

definition argStringOk :: "args \<Rightarrow> string \<Rightarrow> string option" where
  "argStringOk a k = (case a k of Some (Str v) \<Rightarrow> Some v | _ \<Rightarrow> None)"

text \<open>The loop over \<open>rawTags\<close>: the strings of the array, in order.\<close>

fun stringsOf :: "any list \<Rightarrow> string list" where
  "stringsOf [] = []"
| "stringsOf (Str v # xs) = v # stringsOf xs"
| "stringsOf (x # xs) = stringsOf xs"

definition argTagsOk :: "args \<Rightarrow> string list option" where
  "argTagsOk a = (case a ''tags'' of Some (Arr xs) \<Rightarrow> Some (stringsOf xs) | _ \<Rightarrow> None)"

definition argTags :: "args \<Rightarrow> string list" where
  "argTags a = (case argTagsOk a of Some tags \<Rightarrow> tags | None \<Rightarrow> [])"

definition apostrophe :: string where
  "apostrophe = [CHR 0x27]"

definition newline :: string where
  "newline = [CHR 0x0A]"

text \<open>\<open>'%s'\<close>.\<close>

definition quoted :: "string \<Rightarrow> string" where
  "quoted v = apostrophe @ v @ apostrophe"

section \<open>Snippets\<close>

record snippet =
  snippetContent :: string
  snippetTags :: "string list"
  snippetCreatedAt :: string
  snippetUpdatedAt :: string

type_synonym snippets = "string \<rightharpoonup> snippet"

definition loadSnippets :: "snippets store \<Rightarrow> snippets" where
  "loadSnippets st = (case contents st of Parsed m \<Rightarrow> m | _ \<Rightarrow> Map.empty)"

definition saveSnippets :: "snippets store \<Rightarrow> snippets \<Rightarrow> snippets store \<times> string option" where
  "saveSnippets st m = WriteFile st m"

text \<open>\<open>SnippetTool.save\<close>; \<open>now\<close> is \<open>time.Now().Format(time.RFC3339)\<close>.\<close>

definition SnippetTool_save :: "string \<Rightarrow> args \<Rightarrow> snippets store \<Rightarrow> snippets store \<times> ToolResult" where
  "SnippetTool_save now a st =
     (let name = argString a ''name''; content = argString a ''content'' in
      if name = [] \<or> content = [] then (st, ErrorResult ''name and content are required for save'')
      else
        let tags = argTags a;
            snips = loadSnippets st;
            created = (case snips name of Some old \<Rightarrow> snippetCreatedAt old | None \<Rightarrow> now);
            snips' = snips(name \<mapsto> \<lparr>snippetContent = content, snippetTags = tags,
                                      snippetCreatedAt = created, snippetUpdatedAt = now\<rparr>)
        in case saveSnippets st snips' of
             (st', Some e) \<Rightarrow> (st', ErrorResult (''failed to save: '' @ e))
           | (st', None) \<Rightarrow>
               if snips name \<noteq> None
               then (st', SilentResult (''Snippet '' @ quoted name @ '' updated''))
               else (st', SilentResult (''Snippet '' @ quoted name @ '' saved'')))"

definition SnippetTool_get :: "args \<Rightarrow> snippets store \<Rightarrow> ToolResult" where
  "SnippetTool_get a st =
     (let name = argString a ''name'' in
      if name = [] then ErrorResult ''name is required for get''
      else
        case loadSnippets st name of
          None \<Rightarrow> SilentResult (''No snippet found with name '' @ quoted name)
        | Some sn \<Rightarrow>
            SilentResult (''Snippet '' @ quoted name @ '':'' @ newline @ snippetContent sn
              @ (if length (snippetTags sn) > 0
                 then newline @ ''Tags: '' @ Join (snippetTags sn) '', '' else [])))"

text \<open>\<open>SnippetTool.del\<close>: the error of \<open>saveSnippets\<close> is dropped.\<close>

definition SnippetTool_del :: "args \<Rightarrow> snippets store \<Rightarrow> snippets store \<times> ToolResult" where
  "SnippetTool_del a st =
     (let name = argString a ''name'' in
      if name = [] then (st, ErrorResult ''name is required for delete'')
      else
        let snips = loadSnippets st in
        if snips name = None
        then (st, SilentResult (''No snippet found with name '' @ quoted name))
        else (fst (saveSnippets st (snips(name := None))),
              SilentResult (''Snippet '' @ quoted name @ '' deleted'')))"

section \<open>Notes\<close>

record memoryNote =
  Key :: string
  noteContent :: string
  noteTags :: "string list"
  noteCreatedAt :: string
  noteUpdatedAt :: string

definition loadNotes :: "memoryNote list store \<Rightarrow> string + memoryNote list" where
  "loadNotes st =
     (case contents st of
        NotExist e \<Rightarrow> Inr []
      | ReadError e \<Rightarrow> Inl e
      | Corrupt e partial \<Rightarrow> Inl e
      | Parsed notes \<Rightarrow> Inr notes)"

text \<open>
  The loop of \<open>MemoryTool.save\<close>: the first note of that key is changed in place;
  the flag is \<open>found\<close>.
\<close>

fun updateNote :: "string \<Rightarrow> string \<Rightarrow> string list \<Rightarrow> string \<Rightarrow> memoryNote list
    \<Rightarrow> memoryNote list \<times> bool" where
  "updateNote key content tags now [] = ([], False)"
| "updateNote key content tags now (n # ns) =
     (if Key n = key
      then (n\<lparr>noteContent := content, noteTags := tags, noteUpdatedAt := now\<rparr> # ns, True)
      else
        let (ns', found) = updateNote key content tags now ns in (n # ns', found))"

text \<open>
  \<open>MemoryTool.save\<close>: a file that cannot be read leaves \<open>notes\<close> empty; the error of
  \<open>json.Unmarshal\<close> is dropped, and \<open>notes\<close> is what it had decoded.
\<close>

definition MemoryTool_save ::
  "string \<Rightarrow> args \<Rightarrow> memoryNote list store \<Rightarrow> memoryNote list store \<times> ToolResult" where
  "MemoryTool_save now a st =
     (let key = argString a ''key''; content = argString a ''content'' in
      if key = [] \<or> content = [] then (st, ErrorResult ''key and content are required for save'')
      else
        let tags = argTags a;
            notes = (case contents st of
                       Parsed ns \<Rightarrow> ns
                     | Corrupt e partial \<Rightarrow> partial
                     | _ \<Rightarrow> []);
            (notes', found) = updateNote key content tags now notes;
            notes'' = (if \<not> found
                       then notes' @ [\<lparr>Key = key, noteContent = content, noteTags = tags,
                                       noteCreatedAt = now, noteUpdatedAt = now\<rparr>]
                       else notes')
        in case WriteFile st notes'' of
             (st', Some e) \<Rightarrow> (st', ErrorResult (''failed to save: '' @ e))
           | (st', None) \<Rightarrow>
               if found then (st', SilentResult (''Note '' @ quoted key @ '' updated''))
               else (st', SilentResult (''Note '' @ quoted key @ '' saved'')))"

definition MemoryTool_recall :: "args \<Rightarrow> memoryNote list store \<Rightarrow> ToolResult" where
  "MemoryTool_recall a st =
     (let key = argString a ''key'' in
      if key = [] then ErrorResult ''key is required for recall''
      else
        case loadNotes st of
          Inl e \<Rightarrow> ErrorResult (''failed to load notes: '' @ e)
        | Inr notes \<Rightarrow>
            (case find (\<lambda>n. Key n = key) notes of
               Some n \<Rightarrow>
                 SilentResult (''Key: '' @ Key n @ newline @ ''Content: '' @ noteContent n
                   @ (if length (noteTags n) > 0
                      then newline @ ''Tags: '' @ Join (noteTags n) '', '' else []))
             | None \<Rightarrow> SilentResult (''No note found with key '' @ quoted key)))"

text \<open>
  \<open>MemoryTool.del\<close>: a read error of any kind, a missing file too, is an error result;
  the error of \<open>json.Unmarshal\<close> is dropped, and \<open>notes\<close> is what it had decoded; the
  error of the write is dropped.
\<close>

definition MemoryTool_del ::
  "args \<Rightarrow> memoryNote list store \<Rightarrow> memoryNote list store \<times> ToolResult" where
  "MemoryTool_del a st =
     (let key = argString a ''key'' in
      if key = [] then (st, ErrorResult ''key is required for delete'')
      else
        case contents st of
          NotExist e \<Rightarrow> (st, ErrorResult (''failed to load notes: '' @ e))
        | ReadError e \<Rightarrow> (st, ErrorResult (''failed to load notes: '' @ e))
        | f \<Rightarrow>
            let notes = (case f of Parsed ns \<Rightarrow> ns | Corrupt e partial \<Rightarrow> partial | _ \<Rightarrow> []);
                found = (find (\<lambda>n. Key n = key) notes \<noteq> None);
                filtered = filter (\<lambda>n. Key n \<noteq> key) notes
            in if \<not> found then (st, SilentResult (''No note found with key '' @ quoted key))
               else (fst (WriteFile st filtered),
                     SilentResult (''Note '' @ quoted key @ '' deleted'')))"

section \<open>Tasks\<close>

record Task =
  ID :: string
  Title :: string
  Description :: string
  Status :: string
  Priority :: string
  DueDate :: string
  Tags :: "string list"
  Notes :: string
  GoalID :: string
  CreatedAt :: string
  UpdatedAt :: string

definition loadTasks :: "Task list store \<Rightarrow> string + Task list" where
  "loadTasks st =
     (case contents st of
        NotExist e \<Rightarrow> Inr []
      | ReadError e \<Rightarrow> Inl e
      | Corrupt e partial \<Rightarrow> Inl e
      | Parsed tasks \<Rightarrow> Inr tasks)"

definition saveTasks :: "Task list store \<Rightarrow> Task list \<Rightarrow> Task list store \<times> string option" where
  "saveTasks st tasks = WriteFile st tasks"

text \<open>
  \<open>TasksTool.add\<close>; \<open>newID\<close> is what \<open>generateTaskID()\<close> draws. A file that cannot
  be read starts from no tasks; one that does not parse is an error.
\<close>

definition TasksTool_add ::
  "string \<Rightarrow> string \<Rightarrow> args \<Rightarrow> Task list store \<Rightarrow> Task list store \<times> ToolResult" where
  "TasksTool_add newID now a st =
     (let title = argString a ''title'' in
      if title = [] then (st, ErrorResult ''title is required for add'')
      else
        let description = argString a ''description'';
            priority = (if argString a ''priority'' = [] then ''medium''
                        else argString a ''priority'');
            dueDate = argString a ''due_date'';
            notes = argString a ''notes'';
            goalID = argString a ''goal_id'';
            tags = argTags a
        in case contents st of
             Corrupt e partial \<Rightarrow> (st, ErrorResult (''corrupted tasks file: '' @ e))
           | f \<Rightarrow>
               let tasks = (case f of Parsed ts \<Rightarrow> ts | _ \<Rightarrow> []);
                   task = \<lparr>ID = newID, Title = title, Description = description,
                           Status = ''pending'', Priority = priority, DueDate = dueDate,
                           Tags = tags, Notes = notes, GoalID = goalID,
                           CreatedAt = now, UpdatedAt = now\<rparr>
               in (case saveTasks st (tasks @ [task]) of
                     (st', Some e) \<Rightarrow> (st', ErrorResult (''failed to save: '' @ e))
                   | (st', None) \<Rightarrow>
                       (st', SilentResult (''Task created: '' @ Title task @ '' (ID: '' @ ID task
                          @ '', priority: '' @ Priority task
                          @ (if dueDate \<noteq> [] then '', due: '' @ dueDate else []) @ '')''))))"

text \<open>
  Whether the loop of \<open>TasksTool.list\<close> sets \<open>overdue\<close> for a task it has not skipped.
\<close>

definition isOverdue :: "string \<Rightarrow> Task \<Rightarrow> bool" where
  "isOverdue today task \<longleftrightarrow>
     DueDate task \<noteq> [] \<and> DueDate task < today \<and> Status task \<noteq> ''done''
     \<and> Status task \<noteq> ''cancelled''"

text \<open>The line the loop builds for a task; \<open>toUpper\<close> is \<open>strings.ToUpper\<close>.\<close>

definition taskLine :: "(string \<Rightarrow> string) \<Rightarrow> string \<Rightarrow> Task \<Rightarrow> string" where
  "taskLine toUpper today task =
     ''- ['' @ toUpper (Status task) @ ''] '' @ Title task @ '' (ID: '' @ ID task
     @ '', status: '' @ Status task @ '', priority: '' @ Priority task
     @ (if DueDate task \<noteq> [] then '', due: '' @ DueDate task else [])
     @ (if GoalID task \<noteq> [] then '', goal: '' @ GoalID task else [])
     @ '')'' @ (if isOverdue today task then '' [OVERDUE]'' else [])"

fun listLoop :: "(string \<Rightarrow> string) \<Rightarrow> string \<Rightarrow> Task list \<Rightarrow> string list \<times> nat
    \<Rightarrow> string list \<times> nat" where
  "listLoop toUpper today [] acc = acc"
| "listLoop toUpper today (task # tasks) (lines, overdueCount) =
     (if Status task = ''done'' \<or> Status task = ''cancelled''
      then listLoop toUpper today tasks (lines, overdueCount)
      else listLoop toUpper today tasks
             (lines @ [taskLine toUpper today task],
              if isOverdue today task then overdueCount + 1 else overdueCount))"

text \<open>\<open>TasksTool.list\<close>; \<open>today\<close> is \<open>time.Now().Format("2006-01-02")\<close>.\<close>

definition TasksTool_list :: "(string \<Rightarrow> string) \<Rightarrow> string \<Rightarrow> Task list store \<Rightarrow> ToolResult" where
  "TasksTool_list toUpper today st =
     (case loadTasks st of
        Inl e \<Rightarrow> ErrorResult (''failed to load tasks: '' @ e)
      | Inr tasks \<Rightarrow>
          if length tasks = 0 then SilentResult ''No tasks found''
          else
            let (lines, overdueCount) = listLoop toUpper today tasks ([], 0) in
            if length lines = 0 then SilentResult ''No active tasks''
            else
              let header = itoa (int (length lines)) @ '' active task(s)''
                    @ (if overdueCount > 0
                       then '' ('' @ itoa (int overdueCount) @ '' overdue)'' else [])
              in SilentResult (header @ '':'' @ newline @ Join lines newline))"

definition formatTask :: "string \<Rightarrow> Task \<Rightarrow> string" where
  "formatTask today task =
     Join
       ([''ID: '' @ ID task, ''Title: '' @ Title task, ''Status: '' @ Status task,
         ''Priority: '' @ Priority task]
        @ (if Description task \<noteq> [] then [''Description: '' @ Description task] else [])
        @ (if DueDate task \<noteq> []
           then [''Due Date: '' @ DueDate task]
                @ (if DueDate task < today \<and> Status task \<noteq> ''done''
                      \<and> Status task \<noteq> ''cancelled''
                   then [''** OVERDUE **''] else [])
           else [])
        @ (if length (Tags task) > 0 then [''Tags: '' @ Join (Tags task) '', ''] else [])
        @ (if Notes task \<noteq> [] then [''Notes: '' @ Notes task] else [])
        @ (if GoalID task \<noteq> [] then [''Goal ID: '' @ GoalID task] else [])
        @ [''Created: '' @ CreatedAt task, ''Updated: '' @ UpdatedAt task])
       newline"

definition TasksTool_get :: "string \<Rightarrow> args \<Rightarrow> Task list store \<Rightarrow> ToolResult" where
  "TasksTool_get today a st =
     (let tid = argString a ''id'' in
      if tid = [] then ErrorResult ''id is required for get''
      else
        case loadTasks st of
          Inl e \<Rightarrow> ErrorResult (''failed to load tasks: '' @ e)
        | Inr tasks \<Rightarrow>
            (case find (\<lambda>task. ID task = tid) tasks of
               Some task \<Rightarrow> SilentResult (formatTask today task)
             | None \<Rightarrow> SilentResult (''No task found with ID '' @ quoted tid)))"

text \<open>The fields \<open>TasksTool.update\<close> overwrites in the task it has found.\<close>

definition applyUpdate :: "string \<Rightarrow> args \<Rightarrow> Task \<Rightarrow> Task" where
  "applyUpdate now a task =
     (let t1 = (case argStringOk a ''title'' of
                  Some v \<Rightarrow> if v \<noteq> [] then task\<lparr>Title := v\<rparr> else task | None \<Rightarrow> task);
          t2 = (case argStringOk a ''description'' of
                  Some v \<Rightarrow> t1\<lparr>Description := v\<rparr> | None \<Rightarrow> t1);
          t3 = (case argStringOk a ''status'' of
                  Some v \<Rightarrow> if v \<noteq> [] then t2\<lparr>Status := v\<rparr> else t2 | None \<Rightarrow> t2);
          t4 = (case argStringOk a ''priority'' of
                  Some v \<Rightarrow> if v \<noteq> [] then t3\<lparr>Priority := v\<rparr> else t3 | None \<Rightarrow> t3);
          t5 = (case argStringOk a ''due_date'' of
                  Some v \<Rightarrow> t4\<lparr>DueDate := v\<rparr> | None \<Rightarrow> t4);
          t6 = (case argStringOk a ''notes'' of
                  Some v \<Rightarrow> t5\<lparr>Notes := v\<rparr> | None \<Rightarrow> t5);
          t7 = (case argStringOk a ''goal_id'' of
                  Some v \<Rightarrow> t6\<lparr>GoalID := v\<rparr> | None \<Rightarrow> t6);
          t8 = (case argTagsOk a of
                  Some tags \<Rightarrow> t7\<lparr>Tags := tags\<rparr> | None \<Rightarrow> t7)
      in t8\<lparr>UpdatedAt := now\<rparr>)"

fun updateLoop :: "string \<Rightarrow> args \<Rightarrow> string \<Rightarrow> Task list \<Rightarrow> Task list \<times> bool" where
  "updateLoop now a tid [] = ([], False)"
| "updateLoop now a tid (task # tasks) =
     (if ID task = tid then (applyUpdate now a task # tasks, True)
      else let (tasks', found) = updateLoop now a tid tasks in (task # tasks', found))"

definition TasksTool_update ::
  "string \<Rightarrow> args \<Rightarrow> Task list store \<Rightarrow> Task list store \<times> ToolResult" where
  "TasksTool_update now a st =
     (let tid = argString a ''id'' in
      if tid = [] then (st, ErrorResult ''id is required for update'')
      else
        case contents st of
          NotExist e \<Rightarrow> (st, ErrorResult (''failed to load tasks: '' @ e))
        | ReadError e \<Rightarrow> (st, ErrorResult (''failed to load tasks: '' @ e))
        | Corrupt e partial \<Rightarrow> (st, ErrorResult (''corrupted tasks file: '' @ e))
        | Parsed tasks \<Rightarrow>
            let (tasks', found) = updateLoop now a tid tasks in
            if \<not> found then (st, SilentResult (''No task found with ID '' @ quoted tid))
            else
              (case saveTasks st tasks' of
                 (st', Some e) \<Rightarrow> (st', ErrorResult (''failed to save: '' @ e))
               | (st', None) \<Rightarrow> (st', SilentResult (''Task '' @ quoted tid @ '' updated''))))"

definition TasksTool_complete ::
  "string \<Rightarrow> args \<Rightarrow> Task list store \<Rightarrow> Task list store \<times> ToolResult" where
  "TasksTool_complete now a st =
     (if argString a ''id'' = [] then (st, ErrorResult ''id is required for complete'')
      else TasksTool_update now (a(''status'' \<mapsto> Str ''done'')) st)"

definition TasksTool_cancelTask ::
  "string \<Rightarrow> args \<Rightarrow> Task list store \<Rightarrow> Task list store \<times> ToolResult" where
  "TasksTool_cancelTask now a st =
     (if argString a ''id'' = [] then (st, ErrorResult ''id is required for cancel'')
      else TasksTool_update now (a(''status'' \<mapsto> Str ''cancelled'')) st)"

definition TasksTool_del :: "args \<Rightarrow> Task list store \<Rightarrow> Task list store \<times> ToolResult" where
  "TasksTool_del a st =
     (let tid = argString a ''id'' in
      if tid = [] then (st, ErrorResult ''id is required for delete'')
      else
        case contents st of
          NotExist e \<Rightarrow> (st, ErrorResult (''failed to load tasks: '' @ e))
        | ReadError e \<Rightarrow> (st, ErrorResult (''failed to load tasks: '' @ e))
        | Corrupt e partial \<Rightarrow> (st, ErrorResult (''corrupted tasks file: '' @ e))
        | Parsed tasks \<Rightarrow>
            let found = (find (\<lambda>task. ID task = tid) tasks \<noteq> None);
                filtered = filter (\<lambda>task. ID task \<noteq> tid) tasks
            in if \<not> found then (st, SilentResult (''No task found with ID '' @ quoted tid))
               else
                 (case saveTasks st filtered of
                    (st', Some e) \<Rightarrow> (st', ErrorResult (''failed to save: '' @ e))
                  | (st', None) \<Rightarrow> (st', SilentResult (''Task '' @ quoted tid @ '' deleted''))))"

section \<open>Reminders\<close>

record reminder =
  remID :: string
  Message :: string
  DueAt :: string
  remChannel :: string
  remChatID :: string
  remCreatedAt :: string
  Fired :: bool

text \<open>
  The tool: the context of \<open>SetContext\<close>, \<open>nextID\<close> (a Go \<open>int\<close>, 64 bits) and the
  timers armed, by reminder id, each with its delay in nanoseconds.
\<close>

record ReminderTool =
  channel :: string
  chatID :: string
  nextID :: int
  timers :: "string \<rightharpoonup> int"

text \<open>
  The functions of package \<open>time\<close> the tool calls, and \<open>parseDuration\<close>, which rests
  on \<open>time.ParseDuration\<close>.
\<close>

record timelib =
  parseRFC3339 :: "string \<Rightarrow> int option"
  formatRFC3339 :: "int \<Rightarrow> string"
  formatHHMM :: "int \<Rightarrow> string"
  parseDuration :: "string \<Rightarrow> string + int"

definition NewReminderTool :: ReminderTool where
  "NewReminderTool = \<lparr>channel = [], chatID = [], nextID = 0, timers = Map.empty\<rparr>"

definition SetContext :: "string \<Rightarrow> string \<Rightarrow> ReminderTool \<Rightarrow> ReminderTool" where
  "SetContext ch cid t = t\<lparr>channel := ch, chatID := cid\<rparr>"

text \<open>Arithmetic of a 64-bit \<open>int\<close>: the result is taken back into the range.\<close>

definition wrap64 :: "int \<Rightarrow> int" where
  "wrap64 i = (i + 2 ^ 63) mod 2 ^ 64 - 2 ^ 63"

definition isDigit :: "char \<Rightarrow> bool" where
  "isDigit c \<longleftrightarrow> 48 \<le> (of_char c :: nat) \<and> (of_char c :: nat) \<le> 57"

fun decimal :: "int \<Rightarrow> string \<Rightarrow> int" where
  "decimal acc [] = acc"
| "decimal acc (c # cs) = decimal (10 * acc + (int (of_char c) - 48)) cs"

text \<open>
  \<open>strconv.Atoi\<close>: an optional sign, then one or more decimal digits; \<open>None\<close> for a
  syntax error and for a value outside the 64-bit range.
\<close>

definition Atoi :: "string \<Rightarrow> int option" where
  "Atoi s =
     (let neg = (s \<noteq> [] \<and> hd s = CHR ''-'');
          body = (if s \<noteq> [] \<and> (hd s = CHR ''+'' \<or> hd s = CHR ''-'') then tl s else s)
      in if body = [] \<or> \<not> list_all isDigit body then None
         else
           let v = (if neg then - decimal 0 body else decimal 0 body)
           in if v < - (2 ^ 63) \<or> v > 2 ^ 63 - 1 then None else Some v)"

definition loadRemindersLocked :: "reminder list store \<Rightarrow> reminder list" where
  "loadRemindersLocked st = (case contents st of Parsed rs \<Rightarrow> rs | _ \<Rightarrow> [])"

text \<open>
  \<open>saveRemindersLocked\<close>: write \<open>reminders.json.tmp\<close>, rename; a failure is logged.
\<close>

definition saveRemindersLocked :: "reminder list store \<Rightarrow> reminder list \<Rightarrow> reminder list store" where
  "saveRemindersLocked st rs = fst (WriteFile st rs)"

text \<open>
  The loop of \<open>StartPendingReminders\<close> over the reminders loaded, carrying \<open>maxID\<close>,
  the timers and the reminders fired at once because they are past due.
\<close>

fun startLoop :: "timelib \<Rightarrow> int \<Rightarrow> reminder list
    \<Rightarrow> int \<times> (string \<rightharpoonup> int) \<times> reminder list \<Rightarrow> int \<times> (string \<rightharpoonup> int) \<times> reminder list" where
  "startLoop lib now [] acc = acc"
| "startLoop lib now (r # rs) (maxID, tm, fired) =
     (if Fired r then startLoop lib now rs (maxID, tm, fired)
      else
        let maxID' = (case Atoi (remID r) of
                        Some n \<Rightarrow> if n > maxID then n else maxID
                      | None \<Rightarrow> maxID)
        in case parseRFC3339 lib (DueAt r) of
             None \<Rightarrow> startLoop lib now rs (maxID', tm, fired)
           | Some dueAt \<Rightarrow>
               if dueAt - now \<le> 0 then startLoop lib now rs (maxID', tm, fired @ [r])
               else startLoop lib now rs (maxID', tm(remID r \<mapsto> dueAt - now), fired))"

text \<open>
  \<open>StartPendingReminders\<close> at time \<open>now\<close>: the tool afterwards and the reminders handed
  to \<open>fireReminder\<close> at once.
\<close>

definition StartPendingReminders ::
  "timelib \<Rightarrow> int \<Rightarrow> reminder list store \<Rightarrow> ReminderTool \<Rightarrow> ReminderTool \<times> reminder list" where
  "StartPendingReminders lib now st t =
     (let (maxID, tm, fired) = startLoop lib now (loadRemindersLocked st) (0, timers t, [])
      in (t\<lparr>timers := tm, nextID := wrap64 (maxID + 1)\<rparr>, fired))"

text \<open>\<open>ReminderTool.set\<close> at time \<open>now\<close>.\<close>

definition ReminderTool_set ::
  "timelib \<Rightarrow> int \<Rightarrow> args \<Rightarrow> ReminderTool \<times> reminder list store
     \<Rightarrow> (ReminderTool \<times> reminder list store) \<times> ToolResult" where
  "ReminderTool_set lib now a ts =
     (let (t, st) = ts;
          message = argString a ''message'';
          durationStr = argString a ''duration''
      in if message = [] \<or> durationStr = []
         then (ts, ErrorResult ''message and duration are required for set'')
         else
           case parseDuration lib durationStr of
             Inl e \<Rightarrow> (ts, ErrorResult (''invalid duration '' @ quoted durationStr @ '': '' @ e))
           | Inr dur \<Rightarrow>
               let rid = itoa (nextID t);
                   dueAt = now + dur;
                   r = \<lparr>remID = rid, Message = message, DueAt = formatRFC3339 lib dueAt,
                        remChannel = channel t, remChatID = chatID t,
                        remCreatedAt = formatRFC3339 lib now, Fired = False\<rparr>;
                   st' = saveRemindersLocked st (loadRemindersLocked st @ [r]);
                   t' = t\<lparr>nextID := wrap64 (nextID t + 1), timers := (timers t)(rid \<mapsto> dur)\<rparr>
               in ((t', st'),
                   SilentResult (''Reminder #'' @ rid @ '' set for '' @ formatHHMM lib dueAt
                     @ '' ('' @ durationStr @ '' from now): '' @ message)))"

section \<open>How the files are written\<close>

text \<open>
  The calls each save makes on the file system. A file system maps a path to the bytes
  of the file there.
\<close>

type_synonym filesystem = "string \<rightharpoonup> string"

datatype syscall = OsWriteFile string string | OsRename string string

text \<open>
  The states of the file system a reader, or a crash, can meet from the start of a call
  to its end, in order. \<open>os.WriteFile\<close> opens the path with \<open>O_TRUNC\<close> and then writes:
  the file is empty first and grows to the data. \<open>os.Rename\<close> is one step.
\<close>

fun during :: "syscall \<Rightarrow> filesystem \<Rightarrow> filesystem list" where
  "during (OsWriteFile path data) fs = map (\<lambda>n. fs(path \<mapsto> take n data)) [0..<Suc (length data)]"
| "during (OsRename old new) fs =
     [case fs old of None \<Rightarrow> fs | Some data \<Rightarrow> (fs(new \<mapsto> data))(old := None)]"

fun observable :: "syscall list \<Rightarrow> filesystem \<Rightarrow> filesystem list" where
  "observable [] fs = [fs]"
| "observable (c # cs) fs = fs # butlast (during c fs) @ observable cs (last (during c fs))"

text \<open>
  \<open>data\<close> is the result of \<open>json.MarshalIndent\<close>. \<open>saveSnippets\<close>, \<open>saveTasks\<close>,
  \<open>saveNotes\<close> and the writes inside \<open>MemoryTool.save\<close> and \<open>MemoryTool.del\<close>:
\<close>

definition saveSnippets_calls :: "string \<Rightarrow> string \<Rightarrow> syscall list" where
  "saveSnippets_calls filePath data = [OsWriteFile filePath data]"

definition saveTasks_calls :: "string \<Rightarrow> string \<Rightarrow> syscall list" where
  "saveTasks_calls filePath data = [OsWriteFile filePath data]"

definition saveNotes_calls :: "string \<Rightarrow> string \<Rightarrow> syscall list" where
  "saveNotes_calls filePath data = [OsWriteFile filePath data]"

text \<open>\<open>saveRemindersLocked\<close>, \<open>Tracker.Flush\<close> and \<open>Service.saveState\<close>:\<close>

definition saveRemindersLocked_calls :: "string \<Rightarrow> string \<Rightarrow> syscall list" where
  "saveRemindersLocked_calls filePath data =
     [OsWriteFile (filePath @ ''.tmp'') data, OsRename (filePath @ ''.tmp'') filePath]"

definition Flush_calls :: "string \<Rightarrow> string \<Rightarrow> syscall list" where
  "Flush_calls filePath data =
     [OsWriteFile (filePath @ ''.tmp'') data, OsRename (filePath @ ''.tmp'') filePath]"

definition saveState_calls :: "string \<Rightarrow> string \<Rightarrow> syscall list" where
  "saveState_calls filePath data =
     [OsWriteFile (filePath @ ''.tmp'') data, OsRename (filePath @ ''.tmp'') filePath]"

text \<open>
  A write of \<open>data\<close> to \<open>path\<close> is atomic from \<open>fs\<close> when every state met shows at
  \<open>path\<close> what was there before or the whole of \<open>data\<close>.
\<close>

definition atomicWrite :: "syscall list \<Rightarrow> filesystem \<Rightarrow> string \<Rightarrow> string \<Rightarrow> bool" where
  "atomicWrite calls fs path data \<longleftrightarrow>
     list_all (\<lambda>s. s path = fs path \<or> s path = Some data) (observable calls fs)"

section \<open>Vocabulary of the properties\<close>

text \<open>
  Two byte strings differ only in the case of ASCII letters: the same length, and byte
  by byte equal once \<open>A\<close> to \<open>Z\<close> are mapped to \<open>a\<close> to \<open>z\<close>.
\<close>

definition lowerASCII :: "char \<Rightarrow> char" where
  "lowerASCII c = (if isUpperASCII c then char_of (of_char c + (32 :: nat)) else c)"

definition sameUpToCase :: "string \<Rightarrow> string \<Rightarrow> bool" where
  "sameUpToCase a b \<longleftrightarrow> map lowerASCII a = map lowerASCII b"

text \<open>
  Two entries of an outbox with the same content are an hour apart or more, the later
  entry being the later in the list.
\<close>

definition spaced :: "(int \<times> OutboundMessage) list \<Rightarrow> bool" where
  "spaced ob \<longleftrightarrow>
     (\<forall>i j. i < j \<and> j < length ob \<and> outContent (snd (ob ! i)) = outContent (snd (ob ! j))
        \<longrightarrow> fst (ob ! i) + Hour \<le> fst (ob ! j))"

text \<open>
  The invariant of the service: every recorded time is a reading already taken, the
  outbox holds only alerts, each no later than the time recorded for its alert string,
  and the outbox is spaced.
\<close>

definition inv :: "(nat \<Rightarrow> int) \<Rightarrow> Service \<Rightarrow> bool" where
  "inv clock s \<longleftrightarrow>
     (\<forall>a t. lastAlertTime s a = Some t \<longrightarrow> t \<le> clock (reads s))
     \<and> (\<forall>e \<in> set (outbox s). \<exists>a t'. outContent (snd e) = warnPrefix @ a
            \<and> lastAlertTime s a = Some t' \<and> fst e \<le> t')
     \<and> spaced (outbox s)"

text \<open>
  A run to try the sentinel on: 99 % of the memory used, the last channel an external
  one, a clock that advances one second from one reading to the next, and \<open>cron\<close> and
  \<open>webhook\<close> as the internal channels.
\<close>

definition ram99 :: readings where
  "ram99 = \<lparr>cpuTempC = 50, ramTotalMB = 1000, ramAvailableMB = 10, ramUsedPercent = 99,
     diskTotalGB = 100, diskFreeGB = 50, diskUsedPercent = 50, lastChannel = ''telegram:42''\<rparr>"

definition secondsClock :: "nat \<Rightarrow> int" where
  "secondsClock n = int n * 1000000000"

text \<open>A clock whose second reading comes two hours after the first.\<close>

definition jumpClock :: "nat \<Rightarrow> int" where
  "jumpClock n = (if n = 0 then 0 else 7200000000000 + int n * 1000000000)"

definition cronOrWebhook :: "string \<Rightarrow> bool" where
  "cronOrWebhook p \<longleftrightarrow> p = ''cron'' \<or> p = ''webhook''"

definition ramAlert :: string where
  "ramAlert = ''RAM cr'' @ [CHR 0xC3, CHR 0xAD] @ ''tica: 99.0% usada''"

text \<open>
  \<open>strings.ToUpper\<close> on ASCII text, to try the listing on; and a task as \<open>add\<close> makes
  it, due on 2024-06-09.
\<close>

definition toUpperASCII :: "string \<Rightarrow> string" where
  "toUpperASCII s =
     map (\<lambda>c. if 97 \<le> (of_char c :: nat) \<and> (of_char c :: nat) \<le> 122
              then char_of (of_char c - (32 :: nat)) else c) s"

definition payBill :: Task where
  "payBill =
     \<lparr>ID = ''a1b2c3d4e5f6'', Title = ''pay bill'', Description = [], Status = ''pending'',
      Priority = ''medium'', DueDate = ''2024-06-09'', Tags = [], Notes = [], GoalID = [],
      CreatedAt = ''2024-06-01T09:00:00Z'', UpdatedAt = ''2024-06-01T09:00:00Z''\<rparr>"

text \<open>
  Stand-ins for package \<open>time\<close> to try the reminder tool with: no due time parses,
  every time is rendered the same, and every duration is one hour.
\<close>

definition hourLib :: timelib where
  "hourLib =
     \<lparr>parseRFC3339 = (\<lambda>s. None),
      formatRFC3339 = (\<lambda>t. ''2024-06-10T12:00:00Z''),
      formatHHMM = (\<lambda>t. ''12:00''),
      parseDuration = (\<lambda>s. Inr 3600000000000)\<rparr>"

text \<open>A reminder that has fired, as \<open>fireReminder\<close> leaves it in the file.\<close>

definition firedReminder :: reminder where
  "firedReminder =
     \<lparr>remID = ''1'', Message = ''stand up'', DueAt = ''2024-06-09T12:00:00Z'',
      remChannel = ''telegram'', remChatID = ''42'',
      remCreatedAt = ''2024-06-09T11:00:00Z'', Fired = True\<rparr>"

text \<open>
  Arguments and a store to try the tools on: the note and the snippet \<open>pw\<close>, the id
  of a task, and a store with no file yet.
\<close>

definition snippetArgs :: args where
  "snippetArgs =
     [''name'' \<mapsto> Str ''pw'', ''content'' \<mapsto> Str ''hunter2'', ''tags'' \<mapsto> Arr [Str ''x'']]"

definition noteArgs :: args where
  "noteArgs =
     [''key'' \<mapsto> Str ''pw'', ''content'' \<mapsto> Str ''hunter2'', ''tags'' \<mapsto> Arr [Str ''x'']]"

definition taskIdArgs :: args where
  "taskIdArgs = [''id'' \<mapsto> Str ''a1b2c3d4e5f6'']"

definition noFile :: "'a store" where
  "noFile = \<lparr>contents = NotExist ''no such file or directory'', writeErr = None\<rparr>"

chapter \<open>Properties\<close>

section \<open>Telemetry: totals and pruning\<close>

lemma sum_list_update:
  fixes f :: "FeatureBucket \<Rightarrow> int64"
  shows "sum_list (map (f \<circ> snd) (AList.update k v fs)) =
     sum_list (map (f \<circ> snd) fs) - (case map_of fs k of Some old \<Rightarrow> f old | None \<Rightarrow> 0) + f v"
  by (induction fs) auto

lemma recordInto_consistent:
  assumes "Totals b = sumFeatures (Features b)"
  shows "Totals (recordInto feature p c t b) = sumFeatures (Features (recordInto feature p c t b))"
  using assms
  by (auto simp: recordInto_def sumFeatures_def sum_list_update addUsage_def zeroBucket_def
      split: option.splits)

lemma findDay_less: "findDay date ds = Some i \<Longrightarrow> i < length ds"
  by (induction ds arbitrary: i) (auto split: if_splits)

lemma findDay_Date: "findDay date ds = Some i \<Longrightarrow> Date (ds ! i) = date"
  by (induction ds arbitrary: i) (auto split: if_splits)

lemma Record_consistent:
  assumes "\<forall>b \<in> set (Days tr). Totals b = sumFeatures (Features b)"
  shows "\<forall>b \<in> set (Days (Record today feature p c t tr)). Totals b = sumFeatures (Features b)"
proof (cases "t = 0 \<and> p = 0 \<and> c = 0")
  case True
  then show ?thesis using assms by (simp add: Record_def)
next
  case False
  obtain days i where g: "getOrCreateDay today (Days tr) = (days, i)"
    by (cases "getOrCreateDay today (Days tr)")
  have len: "i < length days" and all: "\<forall>b \<in> set days. Totals b = sumFeatures (Features b)"
    using g assms
    by (auto simp: getOrCreateDay_def sumFeatures_def zeroBucket_def
        split: option.splits dest: findDay_less)
  let ?b = "recordInto feature p c t (days ! i)"
  have "Totals ?b = sumFeatures (Features ?b)"
    using len all by (simp add: recordInto_consistent)
  then have "\<forall>b \<in> set (days[i := ?b]). Totals b = sumFeatures (Features b)"
    using all by (auto dest!: set_update_subset_insert [THEN subsetD])
  then show ?thesis using False g by (auto simp: Record_def)
qed

lemma records_consistent:
  "\<forall>b \<in> set (Days tr). Totals b = sumFeatures (Features b) \<Longrightarrow>
   \<forall>b \<in> set (Days (records cs tr)). Totals b = sumFeatures (Features b)"
proof (induction cs arbitrary: tr)
  case Nil
  then show ?case by simp
next
  case (Cons u cs)
  obtain today feature p c t where u: "u = (today, feature, p, c, t)"
    by (cases u) auto
  show ?case
    unfolding u records.simps
    by (rule Cons.IH) (rule Record_consistent [OF Cons.prems])
qed

lemma GetDay_mem: "GetDay date tr = Some b \<Longrightarrow> b \<in> set (Days tr)"
  by (auto simp: GetDay_def dest: findDay_less)

text \<open>
  C4. Start from an empty tracker (no telemetry file) and make any sequence of
  \<open>Record\<close> calls. Whatever bucket \<open>GetDay\<close> then returns for a date, today's included,
  has \<open>Totals\<close> equal to the field-wise sum over the entries of \<open>Features\<close> (prompt,
  completion and total tokens, and calls); in particular the calls of the features add
  up to \<open>Totals.Calls\<close>. Sums are those of \<open>int64\<close>.
\<close>

theorem Record_totals_are_sum_of_features:
  assumes "GetDay today (records cs (NewTracker (NotExist e))) = Some b"
  shows "Totals b = sumFeatures (Features b)
     \<and> PromptTokens (Totals b) = sum_list (map (PromptTokens \<circ> snd) (Features b))
     \<and> CompletionTokens (Totals b) = sum_list (map (CompletionTokens \<circ> snd) (Features b))
     \<and> TotalTokens (Totals b) = sum_list (map (TotalTokens \<circ> snd) (Features b))
     \<and> sum_list (map (Calls \<circ> snd) (Features b)) = Calls (Totals b)"
proof -
  have "\<forall>d \<in> set (Days (NewTracker (NotExist e))). Totals d = sumFeatures (Features d)"
    by (simp add: NewTracker_def load_def)
  then have "Totals b = sumFeatures (Features b)"
    using records_consistent GetDay_mem [OF assms] by blast
  then show ?thesis by (simp add: sumFeatures_def)
qed

theorem Record_totals_are_sum_of_features_witness:
  "GetDay ''2024-06-10''
     (records [(''2024-06-10'', ''chat'', 10, 5, 15), (''2024-06-10'', ''cron'', 1, 2, 3),
               (''2024-06-10'', ''chat'', 10, 5, 15)]
        (NewTracker (NotExist ''no such file'')))
   = Some \<lparr>Date = ''2024-06-10'',
           Features = [(''chat'', \<lparr>PromptTokens = 20, CompletionTokens = 10,
                                   TotalTokens = 30, Calls = 2\<rparr>),
                       (''cron'', \<lparr>PromptTokens = 1, CompletionTokens = 2,
                                   TotalTokens = 3, Calls = 1\<rparr>)],
           Totals = \<lparr>PromptTokens = 21, CompletionTokens = 12, TotalTokens = 33, Calls = 3\<rparr>\<rparr>
   \<and> (21 :: int64) = 20 + 1 \<and> (3 :: int64) = 2 + 1"
proof -
  have g: "GetDay ''2024-06-10''
     (records [(''2024-06-10'', ''chat'', 10, 5, 15), (''2024-06-10'', ''cron'', 1, 2, 3),
               (''2024-06-10'', ''chat'', 10, 5, 15)]
        (NewTracker (NotExist ''no such file'')))
   = Some \<lparr>Date = ''2024-06-10'',
           Features = [(''chat'', \<lparr>PromptTokens = 20, CompletionTokens = 10,
                                   TotalTokens = 30, Calls = 2\<rparr>),
                       (''cron'', \<lparr>PromptTokens = 1, CompletionTokens = 2,
                                   TotalTokens = 3, Calls = 1\<rparr>)],
           Totals = \<lparr>PromptTokens = 21, CompletionTokens = 12, TotalTokens = 33, Calls = 3\<rparr>\<rparr>"
    by (simp add: GetDay_def NewTracker_def load_def Record_def getOrCreateDay_def
        recordInto_def addUsage_def zeroBucket_def)
  from Record_totals_are_sum_of_features [OF g] g show ?thesis
    by simp
qed

text \<open>
  C3, as the code has it. \<open>Flush\<close> prunes only a dirty tracker: then no bucket dated
  before the cutoff (today minus thirty days) is left. On a tracker that is not dirty
  \<open>Flush\<close> returns at once and changes nothing. A \<open>Record\<close> call with a token count
  other than zero makes the tracker dirty.
\<close>

theorem Flush_prunes_dirty_tracker:
  "(dirty tr \<longrightarrow> (\<forall>d \<in> set (Days (fst (Flush cutoff (tr, st)))). \<not> Date d < cutoff))
   \<and> (\<not> dirty tr \<longrightarrow> Flush cutoff (tr, st) = (tr, st))
   \<and> (\<not> (t = 0 \<and> p = 0 \<and> c = 0) \<longrightarrow> dirty (Record today feature p c t tr))"
  by (auto simp: Flush_def prune_def Record_def Let_def split: prod.splits)

theorem Flush_prunes_dirty_tracker_witness:
  "dirty (Record ''2024-06-10'' ''chat'' 10 5 15
            (NewTracker (Parsed [\<lparr>Date = ''2020-01-01'', Features = [], Totals = zeroBucket\<rparr>])))
   \<and> map Date (Days (fst (Flush ''2024-05-11''
         (Record ''2024-06-10'' ''chat'' 10 5 15
            (NewTracker (Parsed [\<lparr>Date = ''2020-01-01'', Features = [], Totals = zeroBucket\<rparr>])),
          \<lparr>contents = Parsed [], writeErr = None\<rparr>)))) = [''2024-06-10'']
   \<and> \<not> ''2024-06-10'' < ''2024-05-11''
   \<and> \<not> dirty (NewTracker (NotExist ''no such file''))
   \<and> Flush ''2024-05-11'' (NewTracker (NotExist ''no such file''),
         \<lparr>contents = NotExist ''no such file'', writeErr = None\<rparr>)
       = (NewTracker (NotExist ''no such file''),
          \<lparr>contents = NotExist ''no such file'', writeErr = None\<rparr>)"
  using Flush_prunes_dirty_tracker
    [where tr = "Record ''2024-06-10'' ''chat'' 10 5 15
            (NewTracker (Parsed [\<lparr>Date = ''2020-01-01'', Features = [], Totals = zeroBucket\<rparr>]))"
       and cutoff = "''2024-05-11''" and st = "\<lparr>contents = Parsed [], writeErr = None\<rparr>"]
    Flush_prunes_dirty_tracker
    [where tr = "NewTracker (NotExist ''no such file'')" and cutoff = "''2024-05-11''"
       and st = "\<lparr>contents = NotExist ''no such file'', writeErr = None\<rparr>"]
  by (simp add: Flush_def prune_def Record_def NewTracker_def load_def getOrCreateDay_def
      recordInto_def addUsage_def zeroBucket_def WriteFile_def)

text \<open>
  C3, as stated, fails: a tracker loaded from a file that holds a bucket of 2020, with
  one \<open>Record\<close> call of zero tokens or none, is not dirty, and \<open>Flush\<close> on 2024-06-10
  (cutoff 2024-05-11) leaves the old bucket in the list.
\<close>

theorem Flush_clean_tracker_keeps_old_day:
  "map Date (Days (fst (Flush ''2024-05-11''
       (Record ''2024-06-10'' ''chat'' 0 0 0
          (NewTracker (Parsed [\<lparr>Date = ''2020-01-01'', Features = [], Totals = zeroBucket\<rparr>])),
        \<lparr>contents = Parsed [\<lparr>Date = ''2020-01-01'', Features = [], Totals = zeroBucket\<rparr>],
         writeErr = None\<rparr>)))) = [''2020-01-01'']
   \<and> ''2020-01-01'' < ''2024-05-11''"
  by (simp add: Flush_def Record_def NewTracker_def load_def)

section \<open>Webhook: responses and the bearer check\<close>

lemma of_char_lowerASCII:
  "(of_char (lowerASCII c) :: nat) = (if isUpperASCII c then of_char c + 32 else of_char c)"
  by (simp add: lowerASCII_def isUpperASCII_def)

lemma lowerASCII_not_upper: "\<not> isUpperASCII (lowerASCII c)"
  using of_char_lowerASCII [of c] by (auto simp: isUpperASCII_def split: if_splits)

lemma lowerASCII_eq_cases:
  assumes "lowerASCII a = lowerASCII b" "a \<noteq> b"
  shows "(isUpperASCII a \<and> (of_char b :: nat) = of_char a + 32)
       \<or> (isUpperASCII b \<and> (of_char a :: nat) = of_char b + 32)"
proof -
  have e: "(of_char (lowerASCII a) :: nat) = of_char (lowerASCII b)"
    using assms(1) by simp
  have ne: "(of_char a :: nat) \<noteq> of_char b"
    using assms(2) by simp
  show ?thesis
    using e ne unfolding of_char_lowerASCII
    by (auto simp: isUpperASCII_def split: if_splits)
qed

lemma EqualFold_sameUpToCase:
  assumes uf: "\<forall>a b. sameUpToCase a b \<longrightarrow> uf a b"
  shows "sameUpToCase s t \<Longrightarrow> EqualFold uf s t"
proof (induction s arbitrary: t)
  case Nil
  then show ?case by (cases t) (auto simp: sameUpToCase_def)
next
  case (Cons sr s)
  then obtain tr t' where t: "t = tr # t'"
    by (cases t) (auto simp: sameUpToCase_def)
  have hd: "lowerASCII sr = lowerASCII tr" and tl: "sameUpToCase s t'"
    using Cons.prems by (auto simp: sameUpToCase_def t)
  have IH: "EqualFold uf s t'"
    by (rule Cons.IH [OF tl])
  show ?case
  proof (cases "(of_char sr :: nat) \<ge> 128 \<or> (of_char tr :: nat) \<ge> 128")
    case True
    then show ?thesis using uf Cons.prems by (simp add: t)
  next
    case ascii: False
    show ?thesis
    proof (cases "tr = sr")
      case True
      then show ?thesis using ascii IH by (simp add: t)
    next
      case False
      then have "sr \<noteq> tr" by simp
      from lowerASCII_eq_cases [OF hd this]
      have "isUpperASCII (min sr tr) \<and> (of_char (max sr tr) :: nat) = of_char (min sr tr) + 32"
        by (auto simp: min_def max_def less_eq_char_def)
      then show ?thesis using ascii False IH by (simp add: t Let_def)
    qed
  qed
qed

text \<open>
  C7. The handler answers 405 to every request whose method is not POST; 401 to a POST
  when a secret is configured and the Authorization header is not equal under
  \<open>strings.EqualFold\<close> to \<open>Bearer\<close>, a space and the secret; 400 to an authorised POST
  whose body cannot be read, does not parse, or parses to an empty content; and
  otherwise 200 with the body \<open>{"status":"ok"}\<close>, handing on a message with sender id
  \<open>webhook:<source>\<close>, chat id \<open>webhook:<source>:<event>\<close> and content
  \<open>[Webhook: <source>/<event>] <content>\<close>. No message is handed on with a 4xx.
\<close>

theorem handler_status_codes:
  "(Method r \<noteq> ''POST'' \<longrightarrow>
      StatusCode (fst (handler uf Unmarshal Secret r)) = 405
      \<and> snd (handler uf Unmarshal Secret r) = None)
   \<and> (Method r = ''POST'' \<and> Secret \<noteq> []
        \<and> \<not> EqualFold uf (Authorization r) (''Bearer '' @ Secret) \<longrightarrow>
      StatusCode (fst (handler uf Unmarshal Secret r)) = 401
      \<and> snd (handler uf Unmarshal Secret r) = None)
   \<and> (Method r = ''POST''
        \<and> (Secret = [] \<or> EqualFold uf (Authorization r) (''Bearer '' @ Secret))
        \<and> (case Body r of
              Inl e \<Rightarrow> True
            | Inr body \<Rightarrow>
                (case Unmarshal body of
                   Inl e \<Rightarrow> True
                 | Inr payload \<Rightarrow> payloadContent payload = [])) \<longrightarrow>
      StatusCode (fst (handler uf Unmarshal Secret r)) = 400
      \<and> snd (handler uf Unmarshal Secret r) = None)
   \<and> (Method r = ''POST''
        \<and> (Secret = [] \<or> EqualFold uf (Authorization r) (''Bearer '' @ Secret))
        \<and> Body r = Inr body \<and> Unmarshal body = Inr payload
        \<and> payloadContent payload \<noteq> [] \<longrightarrow>
      fst (handler uf Unmarshal Secret r) = \<lparr>StatusCode = 200, respBody = statusOK\<rparr>
      \<and> (\<exists>m. snd (handler uf Unmarshal Secret r) = Some m
            \<and> msgSenderID m = ''webhook:'' @ Source payload
            \<and> msgChatID m = ''webhook:'' @ Source payload @ '':'' @ Event payload
            \<and> msgContent m = ''[Webhook: '' @ Source payload @ ''/'' @ Event payload
                 @ ''] '' @ payloadContent payload))"
  by (auto simp: handler_def httpError_def processEvent_def split: sum.splits)

theorem handler_status_codes_witness:
  "StatusCode (fst (handler (\<lambda>a b. False)
       (\<lambda>body. Inr \<lparr>Source = ''gh'', Event = ''push'', payloadContent = ''ok'',
                     payloadMetadata = Map.empty\<rparr>)
       ''s3cr3t''
       \<lparr>Method = ''POST'', Authorization = ''bearer s3cr3t'', Body = Inr ''{}''\<rparr>)) = 200
   \<and> map_option msgChatID (snd (handler (\<lambda>a b. False)
       (\<lambda>body. Inr \<lparr>Source = ''gh'', Event = ''push'', payloadContent = ''ok'',
                     payloadMetadata = Map.empty\<rparr>)
       ''s3cr3t''
       \<lparr>Method = ''POST'', Authorization = ''bearer s3cr3t'', Body = Inr ''{}''\<rparr>))
     = Some ''webhook:gh:push''
   \<and> StatusCode (fst (handler (\<lambda>a b. False)
       (\<lambda>body. Inr \<lparr>Source = ''gh'', Event = ''push'', payloadContent = ''ok'',
                     payloadMetadata = Map.empty\<rparr>)
       ''s3cr3t''
       \<lparr>Method = ''POST'', Authorization = [], Body = Inr ''{}''\<rparr>)) = 401
   \<and> StatusCode (fst (handler (\<lambda>a b. False) (\<lambda>body. Inl ''unexpected end of JSON input'')
       ''s3cr3t''
       \<lparr>Method = ''POST'', Authorization = ''Bearer s3cr3t'', Body = Inr []\<rparr>)) = 400
   \<and> StatusCode (fst (handler (\<lambda>a b. False) (\<lambda>body. Inl ''unexpected end of JSON input'')
       ''s3cr3t''
       \<lparr>Method = ''GET'', Authorization = ''Bearer s3cr3t'', Body = Inr []\<rparr>)) = 405"
proof -
  have auth: "EqualFold (\<lambda>a b. False) ''bearer s3cr3t'' (''Bearer '' @ ''s3cr3t'')"
    "EqualFold (\<lambda>a b. False) ''Bearer s3cr3t'' (''Bearer '' @ ''s3cr3t'')"
    "\<not> EqualFold (\<lambda>a b. False) [] (''Bearer '' @ ''s3cr3t'')"
    by (simp_all add: isUpperASCII_def min_def max_def less_eq_char_def)
  note h = handler_status_codes
    [where uf = "\<lambda>a b. False" and Secret = "''s3cr3t''"]
  show ?thesis
    using auth
      h [where r = "\<lparr>Method = ''POST'', Authorization = ''bearer s3cr3t'', Body = Inr ''{}''\<rparr>"
          and body = "''{}''"
          and Unmarshal = "\<lambda>body. Inr \<lparr>Source = ''gh'', Event = ''push'', payloadContent = ''ok'',
                     payloadMetadata = Map.empty\<rparr>"
          and payload = "\<lparr>Source = ''gh'', Event = ''push'', payloadContent = ''ok'',
                     payloadMetadata = Map.empty\<rparr>"]
      h [where r = "\<lparr>Method = ''POST'', Authorization = [], Body = Inr ''{}''\<rparr>"
          and Unmarshal = "\<lambda>body. Inr \<lparr>Source = ''gh'', Event = ''push'', payloadContent = ''ok'',
                     payloadMetadata = Map.empty\<rparr>"]
      h [where r = "\<lparr>Method = ''POST'', Authorization = ''Bearer s3cr3t'', Body = Inr []\<rparr>"
          and Unmarshal = "\<lambda>body. Inl ''unexpected end of JSON input''"]
      h [where r = "\<lparr>Method = ''GET'', Authorization = ''Bearer s3cr3t'', Body = Inr []\<rparr>"
          and Unmarshal = "\<lambda>body. Inl ''unexpected end of JSON input''"]
    by auto
qed

text \<open>
  C10. The check compares the whole Authorization header with \<open>Bearer <secret>\<close> by
  \<open>strings.EqualFold\<close>. So, for every secret, a request whose header differs from
  \<open>Bearer <secret>\<close> only in the case of ASCII letters, in the scheme or in the token,
  passes the check: the handler answers it exactly as it would with no secret
  configured. The Unicode continuation of \<open>EqualFold\<close> is taken to accept, as Go's does,
  two strings that differ only in the case of ASCII letters.
\<close>

theorem handler_accepts_token_in_any_case:
  assumes "sameUpToCase (Authorization r) (''Bearer '' @ Secret)"
    and "\<forall>a b. sameUpToCase a b \<longrightarrow> uf a b"
  shows "EqualFold uf (Authorization r) (''Bearer '' @ Secret)
     \<and> handler uf Unmarshal Secret r = handler uf Unmarshal [] r"
proof -
  have "EqualFold uf (Authorization r) (''Bearer '' @ Secret)"
    by (rule EqualFold_sameUpToCase [OF assms(2) assms(1)])
  then show ?thesis by (simp add: handler_def)
qed

theorem handler_accepts_token_in_any_case_witness:
  "sameUpToCase ''BEARER S3CR3T'' (''Bearer '' @ ''s3cr3t'')
   \<and> EqualFold sameUpToCase ''BEARER S3CR3T'' (''Bearer '' @ ''s3cr3t'')
   \<and> StatusCode (fst (handler sameUpToCase
       (\<lambda>body. Inr \<lparr>Source = ''gh'', Event = ''push'', payloadContent = ''ok'',
                     payloadMetadata = Map.empty\<rparr>)
       ''s3cr3t''
       \<lparr>Method = ''POST'', Authorization = ''BEARER S3CR3T'', Body = Inr ''{}''\<rparr>)) = 200"
proof -
  have same: "sameUpToCase ''BEARER S3CR3T'' (''Bearer '' @ ''s3cr3t'')"
    by code_simp
  have uf: "\<forall>a b. sameUpToCase a b \<longrightarrow> sameUpToCase a b"
    by simp
  from handler_accepts_token_in_any_case
    [where r = "\<lparr>Method = ''POST'', Authorization = ''BEARER S3CR3T'', Body = Inr ''{}''\<rparr>"
       and Secret = "''s3cr3t''" and uf = sameUpToCase
       and Unmarshal = "\<lambda>body. Inr \<lparr>Source = ''gh'', Event = ''push'', payloadContent = ''ok'',
                     payloadMetadata = Map.empty\<rparr>", OF _ uf]
  show ?thesis using same by (simp add: handler_def)
qed

section \<open>Sentinel: the hourly limit\<close>

lemma parseLastChannel_empty [simp]: "parseLastChannel [] = ([], [])"
  by (simp add: parseLastChannel_def)

text \<open>What a call of \<open>sendAlert\<close> leaves alone.\<close>

lemma sendAlert_disk [simp]:
  "disk (sendAlert isInternal clock lc alert s) = disk s"
  "bus (sendAlert isInternal clock lc alert s) = bus s"
  by (auto simp: sendAlert_def Let_def split: option.splits prod.splits)

lemma sendAlerts_disk [simp]:
  "disk (sendAlerts isInternal clock lc alerts s) = disk s"
  by (induction alerts arbitrary: s) auto

lemma spaced_snoc:
  assumes "spaced ob"
    and "\<forall>(t', m') \<in> set ob. outContent m' = outContent m \<longrightarrow> t' + Hour \<le> t"
  shows "spaced (ob @ [(t, m)])"
  unfolding spaced_def
proof (intro allI impI)
  fix i j
  assume h: "i < j \<and> j < length (ob @ [(t, m)])
     \<and> outContent (snd ((ob @ [(t, m)]) ! i)) = outContent (snd ((ob @ [(t, m)]) ! j))"
  show "fst ((ob @ [(t, m)]) ! i) + Hour \<le> fst ((ob @ [(t, m)]) ! j)"
  proof (cases "j < length ob")
    case True
    then show ?thesis using h assms(1) by (auto simp: spaced_def nth_append)
  next
    case False
    then have j: "j = length ob" using h by simp
    have i: "i < length ob" using h j by simp
    obtain t' m' where e: "ob ! i = (t', m')" by (cases "ob ! i")
    have "(t', m') \<in> set ob" using i e by (metis nth_mem)
    then have "outContent m' = outContent m \<longrightarrow> t' + Hour \<le> t"
      using assms(2) by auto
    then show ?thesis using h i j e by (simp add: nth_append)
  qed
qed

text \<open>The three ways a call of \<open>sendAlert\<close> can end.\<close>

lemma sendAlert_cases:
  obtains
    (limited) lt where "lastAlertTime s alert = Some lt" "clock (reads s) - lt < Hour"
      "sendAlert isInternal clock lc alert s = s\<lparr>reads := reads s + 1\<rparr>"
  | (recorded) k where "reads s \<le> k"
      "\<forall>lt. lastAlertTime s alert = Some lt \<longrightarrow> lt + Hour \<le> clock (reads s)"
      "sendAlert isInternal clock lc alert s =
         s\<lparr>lastAlertTime := (lastAlertTime s)(alert \<mapsto> clock k), reads := k + 1\<rparr>"
  | (published) k platform userID where "reads s \<le> k"
      "\<forall>lt. lastAlertTime s alert = Some lt \<longrightarrow> lt + Hour \<le> clock (reads s)"
      "sendAlert isInternal clock lc alert s =
         s\<lparr>lastAlertTime := (lastAlertTime s)(alert \<mapsto> clock k), reads := k + 1,
           outbox := outbox s @ [(clock k, \<lparr>outChannel = platform, outChatID = userID,
                                           outContent = warnPrefix @ alert\<rparr>)]\<rparr>"
proof (cases "lastAlertTime s alert")
  case None
  show ?thesis
  proof (cases "\<not> bus s \<or> lc = [] \<or> fst (parseLastChannel lc) = []
      \<or> snd (parseLastChannel lc) = [] \<or> isInternal (fst (parseLastChannel lc))")
    case True
    then have "sendAlert isInternal clock lc alert s =
         s\<lparr>lastAlertTime := (lastAlertTime s)(alert \<mapsto> clock (reads s)), reads := reads s + 1\<rparr>"
      using None by (auto simp: sendAlert_def Let_def split: prod.splits)
    then show ?thesis using None recorded [of "reads s"] by simp
  next
    case False
    then have "sendAlert isInternal clock lc alert s =
         s\<lparr>lastAlertTime := (lastAlertTime s)(alert \<mapsto> clock (reads s)), reads := reads s + 1,
           outbox := outbox s @ [(clock (reads s),
              \<lparr>outChannel = fst (parseLastChannel lc), outChatID = snd (parseLastChannel lc),
               outContent = warnPrefix @ alert\<rparr>)]\<rparr>"
      using None by (auto simp: sendAlert_def Let_def split: prod.splits)
    then show ?thesis using None published [of "reads s"] by simp
  qed
next
  case (Some lt)
  show ?thesis
  proof (cases "clock (reads s) - lt < Hour")
    case True
    then show ?thesis using Some limited by (simp add: sendAlert_def)
  next
    case nl: False
    show ?thesis
    proof (cases "\<not> bus s \<or> lc = [] \<or> fst (parseLastChannel lc) = []
        \<or> snd (parseLastChannel lc) = [] \<or> isInternal (fst (parseLastChannel lc))")
      case True
      then have "sendAlert isInternal clock lc alert s =
           s\<lparr>lastAlertTime := (lastAlertTime s)(alert \<mapsto> clock (reads s + 1)),
             reads := reads s + 1 + 1\<rparr>"
        using Some nl by (auto simp: sendAlert_def Let_def split: prod.splits)
      then show ?thesis using Some nl recorded [of "reads s + 1"] by simp
    next
      case False
      then have "sendAlert isInternal clock lc alert s =
           s\<lparr>lastAlertTime := (lastAlertTime s)(alert \<mapsto> clock (reads s + 1)),
             reads := reads s + 1 + 1,
             outbox := outbox s @ [(clock (reads s + 1),
                \<lparr>outChannel = fst (parseLastChannel lc), outChatID = snd (parseLastChannel lc),
                 outContent = warnPrefix @ alert\<rparr>)]\<rparr>"
        using Some nl by (auto simp: sendAlert_def Let_def split: prod.splits)
      then show ?thesis using Some nl published [of "reads s + 1"] by simp
    qed
  qed
qed

lemma sendAlert_inv:
  assumes mono: "mono clock" and I: "inv clock s"
  shows "inv clock (sendAlert isInternal clock lc alert s)"
proof -
  have I1: "\<And>a t. lastAlertTime s a = Some t \<Longrightarrow> t \<le> clock (reads s)"
    and I2: "\<And>e. e \<in> set (outbox s) \<Longrightarrow>
       \<exists>a t'. outContent (snd e) = warnPrefix @ a \<and> lastAlertTime s a = Some t' \<and> fst e \<le> t'"
    and I3: "spaced (outbox s)"
    using I unfolding inv_def by blast+
  show ?thesis
  proof (cases rule: sendAlert_cases [of s alert clock isInternal lc])
    case (limited lt)
    have "clock (reads s) \<le> clock (reads s + 1)"
      using mono by (simp add: monoD)
    then have "\<And>a t. lastAlertTime s a = Some t \<Longrightarrow> t \<le> clock (reads s + 1)"
      using I1 by (meson order_trans)
    then show ?thesis using I2 I3 unfolding limited(3) inv_def by simp
  next
    case (recorded k)
    have le: "clock (reads s) \<le> clock k" "clock k \<le> clock (k + 1)"
      using mono recorded(1) by (simp_all add: monoD)
    have J1: "\<And>a t. lastAlertTime s a = Some t \<Longrightarrow> t \<le> clock k"
      using I1 le(1) by (meson order_trans)
    have "\<exists>a t'. outContent (snd e) = warnPrefix @ a
        \<and> ((lastAlertTime s)(alert \<mapsto> clock k)) a = Some t' \<and> fst e \<le> t'"
      if "e \<in> set (outbox s)" for e
    proof -
      from I2 [OF that] obtain a t' where
        a: "outContent (snd e) = warnPrefix @ a" "lastAlertTime s a = Some t'" "fst e \<le> t'"
        by blast
      show ?thesis
      proof (cases "a = alert")
        case True
        have "fst e \<le> clock k" using a(3) J1 [OF a(2)] by simp
        then show ?thesis using a(1) True by auto
      next
        case False
        then show ?thesis using a by auto
      qed
    qed
    moreover have "\<And>a t. ((lastAlertTime s)(alert \<mapsto> clock k)) a = Some t \<Longrightarrow> t \<le> clock (k + 1)"
      using J1 le(2) by (auto split: if_splits dest: order_trans)
    ultimately show ?thesis using I3 unfolding recorded(3) inv_def by simp
  next
    case (published k platform userID)
    have le: "clock (reads s) \<le> clock k" "clock k \<le> clock (k + 1)"
      using mono published(1) by (simp_all add: monoD)
    have J1: "\<And>a t. lastAlertTime s a = Some t \<Longrightarrow> t \<le> clock k"
      using I1 le(1) by (meson order_trans)
    let ?m = "\<lparr>outChannel = platform, outChatID = userID, outContent = warnPrefix @ alert\<rparr>"
    have old: "(\<exists>a t'. outContent (snd e) = warnPrefix @ a
        \<and> ((lastAlertTime s)(alert \<mapsto> clock k)) a = Some t' \<and> fst e \<le> t')
        \<and> (outContent (snd e) = warnPrefix @ alert \<longrightarrow> fst e + Hour \<le> clock k)"
      if "e \<in> set (outbox s)" for e
    proof -
      from I2 [OF that] obtain a t' where
        a: "outContent (snd e) = warnPrefix @ a" "lastAlertTime s a = Some t'" "fst e \<le> t'"
        by blast
      show ?thesis
      proof (cases "a = alert")
        case True
        have "t' + Hour \<le> clock (reads s)" using published(2) a(2) True by simp
        then have "fst e + Hour \<le> clock k" using a(3) le(1) by simp
        moreover have "fst e \<le> clock k" using a(3) J1 [OF a(2)] by simp
        ultimately show ?thesis using a(1) True by auto
      next
        case False
        then show ?thesis using a by auto
      qed
    qed
    have P2: "\<exists>a t'. outContent (snd e) = warnPrefix @ a
        \<and> ((lastAlertTime s)(alert \<mapsto> clock k)) a = Some t' \<and> fst e \<le> t'"
      if "e \<in> set (outbox s @ [(clock k, ?m)])" for e
    proof (cases "e \<in> set (outbox s)")
      case True
      then show ?thesis using old by blast
    next
      case False
      then have "e = (clock k, ?m)" using that by simp
      then show ?thesis by simp
    qed
    have "\<forall>(t', m') \<in> set (outbox s). outContent m' = outContent ?m \<longrightarrow> t' + Hour \<le> clock k"
      using old by fastforce
    then have P3: "spaced (outbox s @ [(clock k, ?m)])"
      using I3 spaced_snoc by blast
    have P1: "\<And>a t. ((lastAlertTime s)(alert \<mapsto> clock k)) a = Some t \<Longrightarrow> t \<le> clock (k + 1)"
      using J1 le(2) by (auto split: if_splits dest: order_trans)
    show ?thesis using P1 P2 P3 unfolding published(3) inv_def by simp
  qed
qed

lemma sendAlerts_inv:
  "mono clock \<Longrightarrow> inv clock s \<Longrightarrow> inv clock (sendAlerts isInternal clock lc alerts s)"
  by (induction alerts arbitrary: s) (auto intro: sendAlert_inv)

lemma collect_inv:
  assumes "mono clock" "inv clock s"
  shows "inv clock (collect isInternal clock fmtFloat r s)"
proof -
  have "clock (reads s) \<le> clock (reads s + 2)"
    using assms(1) by (simp add: monoD)
  then have "inv clock (s\<lparr>reads := reads s + 2\<rparr>)"
    using assms(2) unfolding inv_def by (auto dest: order_trans)
  then have "inv clock (saveState st (s\<lparr>reads := reads s + 2\<rparr>))" for st
    unfolding inv_def saveState_def by simp
  then show ?thesis
    unfolding collect_def Let_def by (intro sendAlerts_inv assms(1))
qed

lemma loop_inv:
  "mono clock \<Longrightarrow> inv clock s \<Longrightarrow> inv clock (loop isInternal clock fmtFloat rs s)"
  by (induction rs arbitrary: s) (auto intro: collect_inv)

lemma NewService_inv: "inv clock (NewService d)"
  by (simp add: inv_def NewService_def spaced_def)

lemma SetBus_inv: "inv clock s \<Longrightarrow> inv clock (SetBus b s)"
  by (simp add: inv_def SetBus_def)

lemma spaced_butlast: "spaced (ob @ [x]) \<Longrightarrow> spaced ob"
  unfolding spaced_def
proof (intro allI impI)
  fix i j
  assume sp: "\<forall>i j. i < j \<and> j < length (ob @ [x])
       \<and> outContent (snd ((ob @ [x]) ! i)) = outContent (snd ((ob @ [x]) ! j))
       \<longrightarrow> fst ((ob @ [x]) ! i) + Hour \<le> fst ((ob @ [x]) ! j)"
    and h: "i < j \<and> j < length ob \<and> outContent (snd (ob ! i)) = outContent (snd (ob ! j))"
  from h have "i < j \<and> j < length (ob @ [x])
       \<and> outContent (snd ((ob @ [x]) ! i)) = outContent (snd ((ob @ [x]) ! j))"
    by (simp add: nth_append)
  with sp have "fst ((ob @ [x]) ! i) + Hour \<le> fst ((ob @ [x]) ! j)" by blast
  then show "fst (ob ! i) + Hour \<le> fst (ob ! j)" using h by (simp add: nth_append)
qed

lemma spaced_last:
  assumes "spaced (ob @ [x])" "e \<in> set ob" "outContent (snd e) = outContent (snd x)"
  shows "fst e + Hour \<le> fst x"
proof -
  from assms(2) obtain i where i: "i < length ob" "ob ! i = e"
    by (auto simp: in_set_conv_nth)
  have "i < length ob \<and> length ob < length (ob @ [x])
      \<and> outContent (snd ((ob @ [x]) ! i)) = outContent (snd ((ob @ [x]) ! length ob))"
    using i assms(3) by (simp add: nth_append)
  then have "fst ((ob @ [x]) ! i) + Hour \<le> fst ((ob @ [x]) ! length ob)"
    using assms(1) unfolding spaced_def by blast
  then show ?thesis using i by (simp add: nth_append)
qed

text \<open>In a spaced outbox an hour's window holds one entry of a given content at most.\<close>

lemma spaced_window:
  "spaced ob \<Longrightarrow>
   length (filter (\<lambda>e. outContent (snd e) = content \<and> t \<le> fst e \<and> fst e < t + Hour) ob) \<le> 1"
proof (induction ob rule: rev_induct)
  case Nil
  then show ?case by simp
next
  case (snoc x ob)
  let ?P = "\<lambda>e. outContent (snd e) = content \<and> t \<le> fst e \<and> fst e < t + Hour"
  have IH: "length (filter ?P ob) \<le> 1"
    using snoc.IH spaced_butlast [OF snoc.prems] by simp
  show ?case
  proof (cases "?P x")
    case True
    have "\<not> ?P e" if "e \<in> set ob" for e
    proof
      assume "?P e"
      then have "fst e + Hour \<le> fst x"
        using spaced_last [OF snoc.prems that] True by simp
      then show False using True \<open>?P e\<close> by simp
    qed
    then have "filter ?P ob = []"
      by (simp add: filter_empty_conv)
    then show ?thesis using True by simp
  next
    case False
    then have "filter ?P (ob @ [x]) = filter ?P ob" by simp
    then show ?thesis using IH by simp
  qed
qed

text \<open>
  Every run of \<open>collect\<close> leaves its snapshot in \<open>sentinel.json\<close> when the disk takes
  the write, whatever \<open>sendAlert\<close> does afterwards.
\<close>

lemma collect_disk:
  "writeErr (disk s) = None \<Longrightarrow>
   contents (disk (collect isInternal clock fmtFloat r s)) = Parsed (snapshot clock fmtFloat r s)
   \<and> writeErr (disk (collect isInternal clock fmtFloat r s)) = None"
  by (simp add: collect_def saveState_def WriteFile_def Let_def)

lemma loop_writeErr:
  "writeErr (disk s) = None \<Longrightarrow> writeErr (disk (loop isInternal clock fmtFloat rs s)) = None"
  by (induction rs arbitrary: s) (auto simp: collect_disk)

lemma loop_snoc:
  "loop isInternal clock fmtFloat (rs @ [r]) s =
     collect isInternal clock fmtFloat r (loop isInternal clock fmtFloat rs s)"
  by (induction rs arbitrary: s) auto

lemma loop_disk:
  assumes "writeErr (disk s) = None" "n < length rs"
  shows "contents (disk (loop isInternal clock fmtFloat (take (Suc n) rs) s))
     = Parsed (snapshot clock fmtFloat (rs ! n) (loop isInternal clock fmtFloat (take n rs) s))"
proof -
  have "take (Suc n) rs = take n rs @ [rs ! n]"
    using assms(2) by (rule take_Suc_conv_app_nth)
  then show ?thesis
    using collect_disk [OF loop_writeErr [OF assms(1)]] by (simp add: loop_snoc)
qed

text \<open>
  C8. Start the service, with or without a bus, and let \<open>loop\<close> run \<open>collect\<close> on any
  sequence of readings, the clock never going back. Then among the alerts given to
  \<open>PublishOutbound\<close>, any window of one hour holds at most one with a given content, that
  is, one per identical alert string. And when the disk takes the writes, every tick
  leaves in \<open>sentinel.json\<close> the snapshot that \<open>collect\<close> built on that tick from the
  clock and the readings of the tick (all the metrics read and the alerts), whether or
  not an alert was sent.
\<close>

theorem sentinel_one_alert_per_hour:
  assumes "mono clock"
  shows "length (filter (\<lambda>e. outContent (snd e) = content \<and> t \<le> fst e \<and> fst e < t + Hour)
            (outbox (loop isInternal clock fmtFloat rs (SetBus b (NewService d))))) \<le> 1
     \<and> (writeErr d = None \<longrightarrow>
          (\<forall>n < length rs.
             contents (disk (loop isInternal clock fmtFloat (take (Suc n) rs)
                               (SetBus b (NewService d))))
             = Parsed (snapshot clock fmtFloat (rs ! n)
                         (loop isInternal clock fmtFloat (take n rs) (SetBus b (NewService d))))
             \<and> CPUTempC (snapshot clock fmtFloat (rs ! n)
                   (loop isInternal clock fmtFloat (take n rs) (SetBus b (NewService d))))
                 = cpuTempC (rs ! n)
             \<and> RAMUsedPercent (snapshot clock fmtFloat (rs ! n)
                   (loop isInternal clock fmtFloat (take n rs) (SetBus b (NewService d))))
                 = ramUsedPercent (rs ! n)
             \<and> DiskUsedPercent (snapshot clock fmtFloat (rs ! n)
                   (loop isInternal clock fmtFloat (take n rs) (SetBus b (NewService d))))
                 = diskUsedPercent (rs ! n)
             \<and> Alerts (snapshot clock fmtFloat (rs ! n)
                   (loop isInternal clock fmtFloat (take n rs) (SetBus b (NewService d))))
                 = buildAlerts fmtFloat (rs ! n)))"
proof -
  have "inv clock (loop isInternal clock fmtFloat rs (SetBus b (NewService d)))"
    by (intro loop_inv assms SetBus_inv NewService_inv)
  then have "spaced (outbox (loop isInternal clock fmtFloat rs (SetBus b (NewService d))))"
    by (simp add: inv_def)
  then have window: "length (filter (\<lambda>e. outContent (snd e) = content \<and> t \<le> fst e \<and> fst e < t + Hour)
            (outbox (loop isInternal clock fmtFloat rs (SetBus b (NewService d))))) \<le> 1"
    by (rule spaced_window)
  have w: "writeErr (disk (SetBus b (NewService d))) = None" if "writeErr d = None"
    using that by (simp add: SetBus_def NewService_def)
  have fields: "CPUTempC (snapshot clock fmtFloat r s) = cpuTempC r"
    "RAMUsedPercent (snapshot clock fmtFloat r s) = ramUsedPercent r"
    "DiskUsedPercent (snapshot clock fmtFloat r s) = diskUsedPercent r"
    "Alerts (snapshot clock fmtFloat r s) = buildAlerts fmtFloat r" for r s
    by (simp_all add: snapshot_def Let_def)
  show ?thesis
    using window loop_disk [OF w] by (simp add: fields)
qed

text \<open>
  C9. \<open>sendAlert\<close> records the time for the alert string before it looks at the bus and
  the last channel. If a call passes the limiter and then sends nothing, because the bus
  is unset or the last channel is unknown, malformed or internal, then the time on
  record for the alert string is the reading of the clock that this very call took with
  \<open>time.Now()\<close> (its first reading when nothing was on record, its second otherwise, the
  first being that of \<open>time.Since\<close>). So a later call for the same alert string, made
  less than an hour after that reading, sends nothing either, whatever the bus and the
  last channel are by then.
\<close>

theorem sendAlert_suppressed_alert_uses_the_hour:
  assumes "\<forall>lt. lastAlertTime s alert = Some lt \<longrightarrow> \<not> clock (reads s) - lt < Hour"
    and "\<not> bus s \<or> lc = [] \<or> fst (parseLastChannel lc) = [] \<or> snd (parseLastChannel lc) = []
         \<or> isInternal (fst (parseLastChannel lc))"
  shows "outbox (sendAlert isInternal clock lc alert s) = outbox s
     \<and> lastAlertTime (sendAlert isInternal clock lc alert s) alert
         = Some (clock (if lastAlertTime s alert = None then reads s else Suc (reads s)))
     \<and> reads (sendAlert isInternal clock lc alert s)
         = Suc (if lastAlertTime s alert = None then reads s else Suc (reads s))
     \<and> (\<forall>s2 lc2.
           lastAlertTime s2 alert = lastAlertTime (sendAlert isInternal clock lc alert s) alert
           \<and> clock (reads s2)
               - clock (if lastAlertTime s alert = None then reads s else Suc (reads s)) < Hour
           \<longrightarrow> outbox (sendAlert isInternal clock lc2 alert s2) = outbox s2)"
proof -
  let ?k = "if lastAlertTime s alert = None then reads s else Suc (reads s)"
  have 1: "outbox (sendAlert isInternal clock lc alert s) = outbox s"
    using assms(2) by (auto simp: sendAlert_def Let_def split: option.splits prod.splits)
  have 2: "lastAlertTime (sendAlert isInternal clock lc alert s) alert = Some (clock ?k)"
    using assms by (auto simp: sendAlert_def Let_def split: option.splits prod.splits)
  have 3: "reads (sendAlert isInternal clock lc alert s) = Suc ?k"
    using assms by (auto simp: sendAlert_def Let_def split: option.splits prod.splits)
  have 4: "outbox (sendAlert isInternal clock lc2 alert s2) = outbox s2"
    if "lastAlertTime s2 alert = lastAlertTime (sendAlert isInternal clock lc alert s) alert"
      and "clock (reads s2) - clock ?k < Hour" for s2 lc2
  proof -
    from that(1) 2 have "lastAlertTime s2 alert = Some (clock ?k)" by simp
    then show ?thesis using that(2) by (simp add: sendAlert_def)
  qed
  show ?thesis using 1 2 3 4 by blast
qed

lemma secondsClock_mono: "mono secondsClock"
  by (simp add: mono_def secondsClock_def)

lemma buildAlerts_ram99: "buildAlerts (\<lambda>x. ''99.0'') ram99 = [ramAlert]"
  by (simp add: buildAlerts_def ram99_def ramAlert_def)

lemma lastChannel_ram99: "lastChannel ram99 = ''telegram:42''"
  by (simp add: ram99_def)

lemma parseLastChannel_telegram: "parseLastChannel ''telegram:42'' = (''telegram'', ''42'')"
  by (simp add: parseLastChannel_def SplitN2_def)

lemma loop_ram99:
  "map (outContent \<circ> snd)
     (outbox (loop cronOrWebhook secondsClock (\<lambda>x. ''99.0'') [ram99, ram99, ram99]
        (SetBus True (NewService noFile))))
   = [warnPrefix @ ramAlert]"
  by (simp add: collect_def snapshot_def buildAlerts_ram99 lastChannel_ram99 saveState_def
      WriteFile_def sendAlert_def SetBus_def NewService_def noFile_def Hour_def
      parseLastChannel_telegram Let_def secondsClock_def cronOrWebhook_def)

lemma collect_ram99_first:
  "collect cronOrWebhook secondsClock (\<lambda>x. ''99.0'') ram99 (SetBus True (NewService noFile))
   = \<lparr>bus = True, startTime = 0, lastAlertTime = [ramAlert \<mapsto> 2000000000], reads = 3,
      outbox = [(2000000000, \<lparr>outChannel = ''telegram'', outChatID = ''42'',
                               outContent = warnPrefix @ ramAlert\<rparr>)],
      disk = \<lparr>contents = Parsed \<lparr>LastCheck = 0, UptimeSeconds = 1, CPUTempC = 50,
                 RAMTotalMB = 1000, RAMAvailableMB = 10, RAMUsedPercent = 99,
                 DiskTotalGB = 100, DiskFreeGB = 50, DiskUsedPercent = 50,
                 Alerts = [ramAlert]\<rparr>,
               writeErr = None\<rparr>\<rparr>"
  by (simp add: collect_def snapshot_def buildAlerts_ram99 lastChannel_ram99 saveState_def
      WriteFile_def sendAlert_def SetBus_def NewService_def noFile_def Hour_def
      parseLastChannel_telegram Let_def secondsClock_def cronOrWebhook_def)
     (simp add: ram99_def)

lemma collect_ram99_second:
  "collect cronOrWebhook secondsClock (\<lambda>x. ''99.0'') ram99
     (collect cronOrWebhook secondsClock (\<lambda>x. ''99.0'') ram99 (SetBus True (NewService noFile)))
   = \<lparr>bus = True, startTime = 0, lastAlertTime = [ramAlert \<mapsto> 2000000000], reads = 6,
      outbox = [(2000000000, \<lparr>outChannel = ''telegram'', outChatID = ''42'',
                               outContent = warnPrefix @ ramAlert\<rparr>)],
      disk = \<lparr>contents = Parsed \<lparr>LastCheck = 3000000000, UptimeSeconds = 4, CPUTempC = 50,
                 RAMTotalMB = 1000, RAMAvailableMB = 10, RAMUsedPercent = 99,
                 DiskTotalGB = 100, DiskFreeGB = 50, DiskUsedPercent = 50,
                 Alerts = [ramAlert]\<rparr>,
               writeErr = None\<rparr>\<rparr>"
  unfolding collect_ram99_first
  by (simp add: collect_def snapshot_def buildAlerts_ram99 lastChannel_ram99 saveState_def
      WriteFile_def sendAlert_def Hour_def Let_def secondsClock_def)
     (simp add: ram99_def)

theorem sentinel_one_alert_per_hour_witness:
  "mono secondsClock
   \<and> map (outContent \<circ> snd)
       (outbox (loop cronOrWebhook secondsClock (\<lambda>x. ''99.0'') [ram99, ram99, ram99]
          (SetBus True (NewService noFile))))
     = [warnPrefix @ ramAlert]
   \<and> length (filter (\<lambda>e. outContent (snd e) = warnPrefix @ ramAlert \<and> 0 \<le> fst e
                          \<and> fst e < 0 + Hour)
       (outbox (loop cronOrWebhook secondsClock (\<lambda>x. ''99.0'') [ram99, ram99, ram99]
          (SetBus True (NewService noFile)))))
     \<le> 1
   \<and> contents (disk (loop cronOrWebhook secondsClock (\<lambda>x. ''99.0'') [ram99]
          (SetBus True (NewService noFile))))
     = Parsed \<lparr>LastCheck = 0, UptimeSeconds = 1, CPUTempC = 50,
                 RAMTotalMB = 1000, RAMAvailableMB = 10, RAMUsedPercent = 99,
                 DiskTotalGB = 100, DiskFreeGB = 50, DiskUsedPercent = 50,
                 Alerts = [ramAlert]\<rparr>
   \<and> contents (disk (loop cronOrWebhook secondsClock (\<lambda>x. ''99.0'') [ram99, ram99]
          (SetBus True (NewService noFile))))
     = Parsed \<lparr>LastCheck = 3000000000, UptimeSeconds = 4, CPUTempC = 50,
                 RAMTotalMB = 1000, RAMAvailableMB = 10, RAMUsedPercent = 99,
                 DiskTotalGB = 100, DiskFreeGB = 50, DiskUsedPercent = 50,
                 Alerts = [ramAlert]\<rparr>
   \<and> contents (disk (loop cronOrWebhook secondsClock (\<lambda>x. ''99.0'') [ram99, ram99, ram99]
          (SetBus True (NewService noFile))))
     = Parsed \<lparr>LastCheck = 6000000000, UptimeSeconds = 7, CPUTempC = 50,
                 RAMTotalMB = 1000, RAMAvailableMB = 10, RAMUsedPercent = 99,
                 DiskTotalGB = 100, DiskFreeGB = 50, DiskUsedPercent = 50,
                 Alerts = [ramAlert]\<rparr>"
proof -
  let ?s0 = "SetBus True (NewService noFile) :: Service"
  let ?run = "\<lambda>rs. loop cronOrWebhook secondsClock (\<lambda>x. ''99.0'') rs ?s0"
  have w: "writeErr (noFile :: SentinelState store) = None"
    by (simp add: noFile_def)
  note inst = sentinel_one_alert_per_hour
      [where clock = secondsClock and isInternal = cronOrWebhook and fmtFloat = "\<lambda>x. ''99.0''"
        and rs = "[ram99, ram99, ram99]" and b = True and d = noFile
        and content = "warnPrefix @ ramAlert" and t = 0, OF secondsClock_mono]
  from inst have win: "length (filter (\<lambda>e. outContent (snd e) = warnPrefix @ ramAlert \<and> 0 \<le> fst e
                          \<and> fst e < 0 + Hour) (outbox (?run [ram99, ram99, ram99]))) \<le> 1"
    by blast
  from inst w have d: "\<forall>n < length [ram99, ram99, ram99].
      contents (disk (?run (take (Suc n) [ram99, ram99, ram99])))
      = Parsed (snapshot secondsClock (\<lambda>x. ''99.0'') ([ram99, ram99, ram99] ! n)
                  (?run (take n [ram99, ram99, ram99])))"
    by blast
  have d0: "contents (disk (?run [ram99])) = Parsed (snapshot secondsClock (\<lambda>x. ''99.0'') ram99 ?s0)"
    using d [rule_format, of 0] by simp
  have d1: "contents (disk (?run [ram99, ram99]))
      = Parsed (snapshot secondsClock (\<lambda>x. ''99.0'') ram99 (?run [ram99]))"
    using d [rule_format, of 1] by simp
  have d2: "contents (disk (?run [ram99, ram99, ram99]))
      = Parsed (snapshot secondsClock (\<lambda>x. ''99.0'') ram99 (?run [ram99, ram99]))"
    using d [rule_format, of 2] by (simp add: numeral_2_eq_2)
  have r1: "?run [ram99] = collect cronOrWebhook secondsClock (\<lambda>x. ''99.0'') ram99 ?s0"
    and r2: "?run [ram99, ram99] = collect cronOrWebhook secondsClock (\<lambda>x. ''99.0'') ram99
          (collect cronOrWebhook secondsClock (\<lambda>x. ''99.0'') ram99 ?s0)"
    by simp_all
  have s0: "snapshot secondsClock (\<lambda>x. ''99.0'') ram99 ?s0
      = \<lparr>LastCheck = 0, UptimeSeconds = 1, CPUTempC = 50,
                 RAMTotalMB = 1000, RAMAvailableMB = 10, RAMUsedPercent = 99,
                 DiskTotalGB = 100, DiskFreeGB = 50, DiskUsedPercent = 50,
                 Alerts = [ramAlert]\<rparr>"
    by (simp add: snapshot_def buildAlerts_ram99 SetBus_def NewService_def secondsClock_def)
       (simp add: ram99_def)
  have s1: "snapshot secondsClock (\<lambda>x. ''99.0'') ram99 (?run [ram99])
      = \<lparr>LastCheck = 3000000000, UptimeSeconds = 4, CPUTempC = 50,
                 RAMTotalMB = 1000, RAMAvailableMB = 10, RAMUsedPercent = 99,
                 DiskTotalGB = 100, DiskFreeGB = 50, DiskUsedPercent = 50,
                 Alerts = [ramAlert]\<rparr>"
    unfolding r1 collect_ram99_first
    by (simp add: snapshot_def buildAlerts_ram99 secondsClock_def) (simp add: ram99_def)
  have s2: "snapshot secondsClock (\<lambda>x. ''99.0'') ram99 (?run [ram99, ram99])
      = \<lparr>LastCheck = 6000000000, UptimeSeconds = 7, CPUTempC = 50,
                 RAMTotalMB = 1000, RAMAvailableMB = 10, RAMUsedPercent = 99,
                 DiskTotalGB = 100, DiskFreeGB = 50, DiskUsedPercent = 50,
                 Alerts = [ramAlert]\<rparr>"
    unfolding r2 collect_ram99_second
    by (simp add: snapshot_def buildAlerts_ram99 secondsClock_def) (simp add: ram99_def)
  have ob: "map (outContent \<circ> snd) (outbox (?run [ram99, ram99, ram99])) = [warnPrefix @ ramAlert]"
    by (rule loop_ram99)
  show ?thesis
    using secondsClock_mono ob win d0 d1 d2 unfolding s0 s1 s2 by simp
qed

text \<open>
  The witness of C9: the alert is first recorded at time 0; two hours later a call
  passes the limiter with the bus unset and sends nothing; the bus is then set, and a
  call one second later, with an external last channel, sends nothing.
\<close>

theorem sendAlert_suppressed_alert_uses_the_hour_witness:
  "lastAlertTime
     (sendAlert cronOrWebhook jumpClock ''telegram:42'' ramAlert (NewService noFile)) ramAlert
     = Some 0
   \<and> \<not> bus (sendAlert cronOrWebhook jumpClock ''telegram:42'' ramAlert (NewService noFile))
   \<and> \<not> jumpClock (reads
          (sendAlert cronOrWebhook jumpClock ''telegram:42'' ramAlert (NewService noFile))) - 0
        < Hour
   \<and> lastAlertTime
       (sendAlert cronOrWebhook jumpClock ''telegram:42'' ramAlert
          (sendAlert cronOrWebhook jumpClock ''telegram:42'' ramAlert (NewService noFile)))
       ramAlert
     = Some 7202000000000
   \<and> jumpClock (reads (SetBus True
         (sendAlert cronOrWebhook jumpClock ''telegram:42'' ramAlert
            (sendAlert cronOrWebhook jumpClock ''telegram:42'' ramAlert (NewService noFile)))))
       - 7202000000000 < Hour
   \<and> outbox (sendAlert cronOrWebhook jumpClock ''telegram:42'' ramAlert
        (SetBus True
           (sendAlert cronOrWebhook jumpClock ''telegram:42'' ramAlert
              (sendAlert cronOrWebhook jumpClock ''telegram:42'' ramAlert (NewService noFile)))))
     = []"
proof -
  let ?s = "sendAlert cronOrWebhook jumpClock ''telegram:42'' ramAlert (NewService noFile)"
  let ?s1 = "sendAlert cronOrWebhook jumpClock ''telegram:42'' ramAlert ?s"
  have e: "?s = (NewService noFile)\<lparr>lastAlertTime := [ramAlert \<mapsto> 0], reads := 1\<rparr>"
    by (simp add: sendAlert_def NewService_def jumpClock_def)
  have a1: "\<forall>lt. lastAlertTime ?s ramAlert = Some lt \<longrightarrow> \<not> jumpClock (reads ?s) - lt < Hour"
    unfolding e by (simp add: jumpClock_def Hour_def)
  have a2: "\<not> bus ?s \<or> ''telegram:42'' = [] \<or> fst (parseLastChannel ''telegram:42'') = []
      \<or> snd (parseLastChannel ''telegram:42'') = []
      \<or> cronOrWebhook (fst (parseLastChannel ''telegram:42''))"
    unfolding e by (simp add: NewService_def)
  note inst = sendAlert_suppressed_alert_uses_the_hour
    [where s = ?s and alert = ramAlert and clock = jumpClock and lc = "''telegram:42''"
       and isInternal = cronOrWebhook, OF a1 a2]
  have k: "(if lastAlertTime ?s ramAlert = None then reads ?s else Suc (reads ?s)) = 2"
    unfolding e by simp
  from inst have rec: "lastAlertTime ?s1 ramAlert = Some (jumpClock 2)"
    and rd: "reads ?s1 = 3"
    and later: "lastAlertTime (SetBus True ?s1) ramAlert = lastAlertTime ?s1 ramAlert
        \<and> jumpClock (reads (SetBus True ?s1)) - jumpClock 2 < Hour
        \<longrightarrow> outbox (sendAlert cronOrWebhook jumpClock ''telegram:42'' ramAlert (SetBus True ?s1))
            = outbox (SetBus True ?s1)"
    unfolding k by (blast, simp, blast)
  have ob: "outbox ?s1 = []"
    using inst unfolding e by (simp add: NewService_def)
  have j: "jumpClock 2 = 7202000000000" "jumpClock 3 - 7202000000000 < Hour"
    by (simp_all add: jumpClock_def Hour_def)
  have fin: "outbox (sendAlert cronOrWebhook jumpClock ''telegram:42'' ramAlert (SetBus True ?s1)) = []"
    using later rec rd ob j by (simp add: SetBus_def)
  have first: "lastAlertTime ?s ramAlert = Some 0" "\<not> bus ?s"
    "\<not> jumpClock (reads ?s) - 0 < Hour"
    unfolding e by (simp_all add: NewService_def jumpClock_def Hour_def)
  show ?thesis
    using first rec rd fin j by (simp add: SetBus_def)
qed

section \<open>Tasks: the overdue tag\<close>

lemma listLoop_eq:
  "listLoop toUpper today tasks (lines, n) =
     (lines @ map (taskLine toUpper today)
                (filter (\<lambda>task. \<not> (Status task = ''done'' \<or> Status task = ''cancelled'')) tasks),
      n + length (filter (isOverdue today) tasks))"
proof (induction tasks arbitrary: lines n)
  case Nil
  then show ?case by simp
next
  case (Cons task tasks)
  show ?case
  proof (cases "Status task = ''done'' \<or> Status task = ''cancelled''")
    case True
    then have "\<not> isOverdue today task" by (auto simp: isOverdue_def)
    then show ?thesis using True Cons.IH by simp
  next
    case False
    then show ?thesis using Cons.IH by simp
  qed
qed

lemma taskLine_tagged:
  "suffix '' [OVERDUE]'' (taskLine toUpper today task) \<longleftrightarrow> isOverdue today task"
proof (cases "isOverdue today task")
  case True
  then show ?thesis by (simp add: taskLine_def suffix_def)
next
  case False
  let ?x = "''- ['' @ toUpper (Status task) @ ''] '' @ Title task @ '' (ID: '' @ ID task
     @ '', status: '' @ Status task @ '', priority: '' @ Priority task
     @ (if DueDate task \<noteq> [] then '', due: '' @ DueDate task else [])
     @ (if GoalID task \<noteq> [] then '', goal: '' @ GoalID task else [])"
  have line: "taskLine toUpper today task = ?x @ '')''"
    using False by (simp add: taskLine_def)
  have "\<not> suffix '' [OVERDUE]'' (?x @ '')'')"
  proof
    assume "suffix '' [OVERDUE]'' (?x @ '')'')"
    then obtain zs where "?x @ '')'' = zs @ '' [OVERDUE]''"
      by (auto simp: suffix_def)
    then have "last (?x @ '')'') = last (zs @ '' [OVERDUE]'')" by simp
    then show False by simp
  qed
  then show ?thesis using False line by simp
qed

text \<open>
  C6, as the code has it. With a tasks file that parses, the listing has one line for
  each task whose status is neither \<open>done\<close> nor \<open>cancelled\<close>, in the order of the file,
  under a header that counts them and, when there are any, the overdue ones. A task's
  line ends in \<open>[OVERDUE]\<close> exactly when its due date is not empty and is smaller than
  today as a string and its status is neither \<open>done\<close> nor \<open>cancelled\<close>; the header's
  count of overdue tasks is the number of such tasks. A task with status \<open>pending\<close> or
  \<open>in_progress\<close> and a past due date is one of them.
\<close>

theorem TasksTool_list_overdue:
  assumes "contents st = Parsed tasks"
    and "active = filter (\<lambda>task. Status task \<noteq> ''done'' \<and> Status task \<noteq> ''cancelled'') tasks"
    and "active \<noteq> []"
    and "k = length (filter (\<lambda>task. DueDate task \<noteq> [] \<and> DueDate task < today
              \<and> Status task \<noteq> ''done'' \<and> Status task \<noteq> ''cancelled'') tasks)"
  shows "TasksTool_list toUpper today st =
       SilentResult (itoa (int (length active)) @ '' active task(s)''
         @ (if k > 0 then '' ('' @ itoa (int k) @ '' overdue)'' else [])
         @ '':'' @ newline @ Join (map (taskLine toUpper today) active) newline)
     \<and> (\<forall>task. suffix '' [OVERDUE]'' (taskLine toUpper today task) \<longleftrightarrow>
           DueDate task \<noteq> [] \<and> DueDate task < today
           \<and> Status task \<noteq> ''done'' \<and> Status task \<noteq> ''cancelled'')
     \<and> (\<forall>task. (Status task = ''pending'' \<or> Status task = ''in_progress'')
           \<and> DueDate task \<noteq> [] \<and> DueDate task < today
           \<longrightarrow> suffix '' [OVERDUE]'' (taskLine toUpper today task))"
proof -
  have ov: "isOverdue today task \<longleftrightarrow> DueDate task \<noteq> [] \<and> DueDate task < today
              \<and> Status task \<noteq> ''done'' \<and> Status task \<noteq> ''cancelled''" for task
    by (simp add: isOverdue_def)
  have act: "filter (\<lambda>task. \<not> (Status task = ''done'' \<or> Status task = ''cancelled'')) tasks = active"
    unfolding assms(2) by (rule filter_cong) auto
  have cnt: "length (filter (isOverdue today) tasks) = k"
    unfolding assms(4) ov by simp
  have l: "listLoop toUpper today tasks ([], 0) = (map (taskLine toUpper today) active, k)"
    unfolding listLoop_eq act cnt by simp
  have tasks: "length tasks \<noteq> 0" using assms(2,3) by auto
  have lines: "length (map (taskLine toUpper today) active) \<noteq> 0" using assms(3) by simp
  have ld: "loadTasks st = Inr tasks"
    by (simp add: loadTasks_def assms(1))
  have a: "TasksTool_list toUpper today st =
       SilentResult (itoa (int (length active)) @ '' active task(s)''
         @ (if k > 0 then '' ('' @ itoa (int k) @ '' overdue)'' else [])
         @ '':'' @ newline @ Join (map (taskLine toUpper today) active) newline)"
    using tasks lines by (simp add: TasksTool_list_def ld l del: length_0_conv)
  have b: "\<forall>task. suffix '' [OVERDUE]'' (taskLine toUpper today task) \<longleftrightarrow>
           DueDate task \<noteq> [] \<and> DueDate task < today
           \<and> Status task \<noteq> ''done'' \<and> Status task \<noteq> ''cancelled''"
    unfolding taskLine_tagged ov by simp
  have c: "\<forall>task. (Status task = ''pending'' \<or> Status task = ''in_progress'')
           \<and> DueDate task \<noteq> [] \<and> DueDate task < today
           \<longrightarrow> suffix '' [OVERDUE]'' (taskLine toUpper today task)"
    unfolding taskLine_tagged ov by auto
  show ?thesis by (rule conjI [OF a conjI [OF b c]])
qed

lemma itoa_1: "itoa 1 = ''1''"
  by code_simp

lemma toUpperASCII_pending: "toUpperASCII ''pending'' = ''PENDING''"
  by code_simp

lemma toUpperASCII_blocked: "toUpperASCII ''blocked'' = ''BLOCKED''"
  by code_simp

theorem TasksTool_list_overdue_witness:
  "TasksTool_list toUpperASCII ''2024-06-10'' \<lparr>contents = Parsed [payBill], writeErr = None\<rparr>
     = SilentResult (''1 active task(s) (1 overdue):'' @ newline
         @ ''- [PENDING] pay bill (ID: a1b2c3d4e5f6, status: pending, priority: medium, due: 2024-06-09) [OVERDUE]'')
   \<and> Status payBill = ''pending'' \<and> DueDate payBill < ''2024-06-10''
   \<and> suffix '' [OVERDUE]'' (taskLine toUpperASCII ''2024-06-10'' payBill)"
proof -
  have f: "filter (\<lambda>task. Status task \<noteq> ''done'' \<and> Status task \<noteq> ''cancelled'') [payBill] = [payBill]"
    "length (filter (\<lambda>task. DueDate task \<noteq> [] \<and> DueDate task < ''2024-06-10''
              \<and> Status task \<noteq> ''done'' \<and> Status task \<noteq> ''cancelled'') [payBill]) = 1"
    by (simp_all add: payBill_def)
  have line: "taskLine toUpperASCII ''2024-06-10'' payBill =
      ''- [PENDING] pay bill (ID: a1b2c3d4e5f6, status: pending, priority: medium, due: 2024-06-09) [OVERDUE]''"
    by (simp add: taskLine_def payBill_def isOverdue_def toUpperASCII_pending)
  have c: "contents \<lparr>contents = Parsed [payBill], writeErr = None\<rparr> = Parsed [payBill]"
    by simp
  have ne: "[payBill] \<noteq> []" by simp
  from TasksTool_list_overdue
    [where st = "\<lparr>contents = Parsed [payBill], writeErr = None\<rparr>" and tasks = "[payBill]"
       and active = "[payBill]" and k = 1 and today = "''2024-06-10''" and toUpper = toUpperASCII,
     OF c f(1) [symmetric] ne f(2) [symmetric]]
  have "TasksTool_list toUpperASCII ''2024-06-10'' \<lparr>contents = Parsed [payBill], writeErr = None\<rparr>
     = SilentResult (itoa (int (length [payBill])) @ '' active task(s)''
         @ (if (1 :: nat) > 0 then '' ('' @ itoa (int 1) @ '' overdue)'' else [])
         @ '':'' @ newline @ Join (map (taskLine toUpperASCII ''2024-06-10'') [payBill]) newline)"
    and tag: "suffix '' [OVERDUE]'' (taskLine toUpperASCII ''2024-06-10'' payBill) \<longleftrightarrow>
           DueDate payBill \<noteq> [] \<and> DueDate payBill < ''2024-06-10''
           \<and> Status payBill \<noteq> ''done'' \<and> Status payBill \<noteq> ''cancelled''"
    by blast+
  then have out: "TasksTool_list toUpperASCII ''2024-06-10''
       \<lparr>contents = Parsed [payBill], writeErr = None\<rparr>
     = SilentResult (''1 active task(s) (1 overdue):'' @ newline
         @ ''- [PENDING] pay bill (ID: a1b2c3d4e5f6, status: pending, priority: medium, due: 2024-06-09) [OVERDUE]'')"
    by (simp add: itoa_1 line)
  have "suffix '' [OVERDUE]'' (taskLine toUpperASCII ''2024-06-10'' payBill)"
    unfolding tag by (simp add: payBill_def)
  then show ?thesis using out by (simp add: payBill_def)
qed

text \<open>
  C6, as stated, fails for a task that is not \<open>pending\<close> or \<open>in_progress\<close> and not
  \<open>done\<close> or \<open>cancelled\<close> either: add a task due on 2024-06-09, set its status to
  \<open>blocked\<close> with \<open>update\<close>, and list on 2024-06-10. The task is tagged and counted.
\<close>

theorem TasksTool_list_tags_other_status:
  "TasksTool_list toUpperASCII ''2024-06-10''
     (fst (TasksTool_update ''2024-06-02T09:00:00Z''
        [''id'' \<mapsto> Str ''a1b2c3d4e5f6'', ''status'' \<mapsto> Str ''blocked'']
        (fst (TasksTool_add ''a1b2c3d4e5f6'' ''2024-06-01T09:00:00Z''
           [''title'' \<mapsto> Str ''pay bill'', ''due_date'' \<mapsto> Str ''2024-06-09'']
           \<lparr>contents = NotExist ''no such file'', writeErr = None\<rparr>))))
     = SilentResult (''1 active task(s) (1 overdue):'' @ newline
         @ ''- [BLOCKED] pay bill (ID: a1b2c3d4e5f6, status: blocked, priority: medium, due: 2024-06-09) [OVERDUE]'')
   \<and> ''blocked'' \<noteq> ''pending'' \<and> ''blocked'' \<noteq> ''in_progress''"
  by (simp add: TasksTool_list_def TasksTool_update_def TasksTool_add_def loadTasks_def
      saveTasks_def WriteFile_def argString_def argStringOk_def argTags_def argTagsOk_def
      applyUpdate_def taskLine_def isOverdue_def itoa_1 toUpperASCII_blocked Let_def)

section \<open>Reminders: the next id\<close>

lemma Atoi_1: "Atoi ''1'' = Some 1"
  by (simp add: Atoi_def isDigit_def)

lemma wrap64_1: "wrap64 1 = 1"
  by (simp add: wrap64_def)

text \<open>
  Among the reminders that have not fired, \<open>StartPendingReminders\<close> does what the
  claim says: \<open>maxID\<close> ends no smaller than the id of any of them that \<open>Atoi\<close> reads.
\<close>

lemma startLoop_maxID:
  assumes "startLoop lib now rs (m, tm, fs) = (m', tm', fs')"
  shows "m \<le> m' \<and> (\<forall>r \<in> set rs. \<forall>n. \<not> Fired r \<and> Atoi (remID r) = Some n \<longrightarrow> n \<le> m')"
  using assms
proof (induction rs arbitrary: m tm fs)
  case Nil
  then show ?case by simp
next
  case (Cons r rs)
  show ?case
  proof (cases "Fired r")
    case True
    then show ?thesis using Cons.IH [of m tm fs] Cons.prems by simp
  next
    case False
    let ?m = "case Atoi (remID r) of Some n \<Rightarrow> if n > m then n else m | None \<Rightarrow> m"
    obtain tm1 fs1 where step: "startLoop lib now rs (?m, tm1, fs1) = (m', tm', fs')"
      using Cons.prems False
      by (auto simp: Let_def split: option.splits if_splits)
    have "m \<le> ?m" "\<forall>n. Atoi (remID r) = Some n \<longrightarrow> n \<le> ?m"
      by (auto split: option.splits)
    then show ?thesis using Cons.IH [OF step] by fastforce
  qed
qed

text \<open>
  C2 fails on the code. The file holds one reminder, with id 1, that has fired. The
  loop of \<open>StartPendingReminders\<close> skips fired reminders before it reads their ids, so
  \<open>nextID\<close> becomes 1, and the next \<open>set\<close> gives the new reminder the id 1 again: the
  file then holds two reminders with the same id.
\<close>

theorem StartPendingReminders_reuses_fired_id:
  "nextID (fst (StartPendingReminders hourLib 0
       \<lparr>contents = Parsed [firedReminder], writeErr = None\<rparr> NewReminderTool)) = 1
   \<and> map remID (loadRemindersLocked (snd (fst
        (ReminderTool_set hourLib 0
           [''message'' \<mapsto> Str ''call mum'', ''duration'' \<mapsto> Str ''1h'']
           (fst (StartPendingReminders hourLib 0
                  \<lparr>contents = Parsed [firedReminder], writeErr = None\<rparr> NewReminderTool),
            \<lparr>contents = Parsed [firedReminder], writeErr = None\<rparr>)))))
     = [''1'', ''1'']"
proof -
  have start: "StartPendingReminders hourLib 0
       \<lparr>contents = Parsed [firedReminder], writeErr = None\<rparr> NewReminderTool
     = (NewReminderTool\<lparr>timers := Map.empty, nextID := 1\<rparr>, [])"
    by (simp add: StartPendingReminders_def loadRemindersLocked_def firedReminder_def
        NewReminderTool_def wrap64_1)
  show ?thesis
    unfolding start
    by (simp add: ReminderTool_set_def loadRemindersLocked_def saveRemindersLocked_def
        WriteFile_def argString_def hourLib_def itoa_1 NewReminderTool_def firedReminder_def
        Let_def)
qed

section \<open>Files: which writes are atomic\<close>

lemma tmp_differs: "filePath @ ''.tmp'' \<noteq> filePath"
  by simp

text \<open>
  The three saves that write \<open>.tmp\<close> and rename are atomic from every file system: a
  reader of the file meets its old bytes or the new ones.
\<close>

lemma tmp_rename_atomic:
  "atomicWrite [OsWriteFile (filePath @ ''.tmp'') data, OsRename (filePath @ ''.tmp'') filePath]
     fs filePath data"
  unfolding atomicWrite_def list_all_iff
proof
  let ?tmp = "filePath @ ''.tmp''"
  let ?w = "map (\<lambda>n. fs(?tmp \<mapsto> take n data)) [0..<Suc (length data)]"
  fix s
  assume s: "s \<in> set (observable [OsWriteFile ?tmp data, OsRename ?tmp filePath] fs)"
  have last: "last ?w = fs(?tmp \<mapsto> data)"
    by (simp add: last_map)
  have obs: "observable [OsWriteFile ?tmp data, OsRename ?tmp filePath] fs
      = fs # butlast ?w @ [fs(?tmp \<mapsto> data), ((fs(?tmp \<mapsto> data))(filePath \<mapsto> data))(?tmp := None)]"
    unfolding observable.simps during.simps last by simp
  from s consider "s = fs" | "s \<in> set (butlast ?w)" | "s = fs(?tmp \<mapsto> data)"
    | "s = ((fs(?tmp \<mapsto> data))(filePath \<mapsto> data))(?tmp := None)"
    unfolding obs by auto
  then show "s filePath = fs filePath \<or> s filePath = Some data"
  proof cases
    case 2
    then have "s \<in> set ?w" by (rule in_set_butlastD)
    then obtain n where "s = fs(?tmp \<mapsto> take n data)" unfolding set_map by blast
    then show ?thesis by simp
  qed auto
qed

lemma saveRemindersLocked_atomic:
  "atomicWrite (saveRemindersLocked_calls filePath data) fs filePath data"
  unfolding saveRemindersLocked_calls_def by (rule tmp_rename_atomic)

lemma Flush_atomic: "atomicWrite (Flush_calls filePath data) fs filePath data"
  unfolding Flush_calls_def by (rule tmp_rename_atomic)

lemma saveState_atomic: "atomicWrite (saveState_calls filePath data) fs filePath data"
  unfolding saveState_calls_def by (rule tmp_rename_atomic)

text \<open>
  C1 fails on the code for snippets, tasks and notes. Their saves call \<open>os.WriteFile\<close>
  on the final path: right after the file is opened a reader finds it empty, neither
  the old contents nor the new, and then a growing part of the new. Here the file holds
  the bytes \<open>{a:1}\<close> and \<open>{b:2}\<close> is written.
\<close>

theorem save_on_final_path_not_atomic:
  "map (\<lambda>s. s ''snippets.json'')
       (observable (saveSnippets_calls ''snippets.json'' ''{b:2}'') [''snippets.json'' \<mapsto> ''{a:1}''])
     = [Some ''{a:1}'', Some [], Some ''{'', Some ''{b'', Some ''{b:'', Some ''{b:2'',
        Some ''{b:2}'']
   \<and> \<not> atomicWrite (saveSnippets_calls ''snippets.json'' ''{b:2}'')
         [''snippets.json'' \<mapsto> ''{a:1}''] ''snippets.json'' ''{b:2}''
   \<and> \<not> atomicWrite (saveTasks_calls ''tasks/tasks.json'' ''{b:2}'')
         [''tasks/tasks.json'' \<mapsto> ''{a:1}''] ''tasks/tasks.json'' ''{b:2}''
   \<and> \<not> atomicWrite (saveNotes_calls ''memory/notes.json'' ''{b:2}'')
         [''memory/notes.json'' \<mapsto> ''{a:1}''] ''memory/notes.json'' ''{b:2}''"
  by (simp add: saveSnippets_calls_def saveTasks_calls_def saveNotes_calls_def atomicWrite_def
      upt_rec)

section \<open>Snippets, notes and tasks: save, get, delete\<close>

text \<open>
  What holds of the three stores when writes succeed and keys and contents are not
  empty; then, for C5, what does not.
\<close>

subsection \<open>Snippets\<close>

lemma SnippetTool_save_get:
  assumes "writeErr st = None" "argString a ''name'' \<noteq> []" "argString a ''content'' \<noteq> []"
    and "argString g ''name'' = argString a ''name''"
  shows "SnippetTool_get g (fst (SnippetTool_save now a st)) =
     SilentResult (''Snippet '' @ quoted (argString a ''name'') @ '':'' @ newline
       @ argString a ''content''
       @ (if length (argTags a) > 0 then newline @ ''Tags: '' @ Join (argTags a) '', '' else []))"
  using assms
  by (simp add: SnippetTool_save_def SnippetTool_get_def saveSnippets_def WriteFile_def
      loadSnippets_def Let_def)

lemma loadSnippets_del:
  assumes "writeErr st = None" "argString g ''name'' \<noteq> []"
  shows "loadSnippets (fst (SnippetTool_del g st)) (argString g ''name'') = None"
  using assms
  by (auto simp: SnippetTool_del_def saveSnippets_def WriteFile_def loadSnippets_def Let_def
      split: jsonfile.splits)

lemma SnippetTool_del_get:
  assumes "writeErr st = None" "argString g ''name'' \<noteq> []"
  shows "SnippetTool_get g (fst (SnippetTool_del g st)) =
     SilentResult (''No snippet found with name '' @ quoted (argString g ''name''))"
  using assms loadSnippets_del [OF assms]
  by (simp add: SnippetTool_get_def)

lemma SnippetTool_del_del:
  assumes "writeErr st = None" "argString g ''name'' \<noteq> []"
  shows "SnippetTool_del g (fst (SnippetTool_del g st)) =
     (fst (SnippetTool_del g st),
      SilentResult (''No snippet found with name '' @ quoted (argString g ''name'')))"
  using assms loadSnippets_del [OF assms]
  by (simp add: SnippetTool_del_def [of g "fst (SnippetTool_del g st)"])

subsection \<open>Notes\<close>

lemma updateNote_found:
  "updateNote key content tags now ns = (ns', True) \<Longrightarrow>
   \<exists>n. find (\<lambda>n. Key n = key) ns' = Some n \<and> Key n = key \<and> noteContent n = content
       \<and> noteTags n = tags"
proof (induction ns arbitrary: ns')
  case Nil
  then show ?case by simp
next
  case (Cons n ns)
  show ?case
  proof (cases "Key n = key")
    case True
    then show ?thesis using Cons.prems by auto
  next
    case False
    then obtain ms where "updateNote key content tags now ns = (ms, True)" "ns' = n # ms"
      using Cons.prems by (auto split: prod.splits)
    then show ?thesis using Cons.IH False by auto
  qed
qed

lemma updateNote_not_found:
  "updateNote key content tags now ns = (ns', False) \<Longrightarrow>
   ns' = ns \<and> find (\<lambda>n. Key n = key) ns = None"
proof (induction ns arbitrary: ns')
  case Nil
  then show ?case by simp
next
  case (Cons n ns)
  then show ?case by (auto split: if_splits prod.splits)
qed

lemma find_append_new:
  "find P xs = None \<Longrightarrow> P x \<Longrightarrow> find P (xs @ [x]) = Some x"
  by (induction xs) (auto split: if_splits)

lemma find_filter_not: "find P (filter (\<lambda>x. \<not> P x) xs) = None"
  by (induction xs) auto

text \<open>
  Notes: \<open>save\<close> then \<open>recall\<close> returns what was saved, whatever the file held before.
\<close>

lemma MemoryTool_save_recall:
  assumes "writeErr st = None"
    and "argString a ''key'' \<noteq> []" "argString a ''content'' \<noteq> []"
    and "argString g ''key'' = argString a ''key''"
  shows "MemoryTool_recall g (fst (MemoryTool_save now a st)) =
     SilentResult (''Key: '' @ argString a ''key'' @ newline @ ''Content: ''
       @ argString a ''content''
       @ (if length (argTags a) > 0 then newline @ ''Tags: '' @ Join (argTags a) '', '' else []))"
proof -
  let ?key = "argString a ''key''" and ?content = "argString a ''content''"
  let ?old = "case contents st of Parsed ns \<Rightarrow> ns | Corrupt e partial \<Rightarrow> partial | _ \<Rightarrow> []"
  obtain ns' found where u: "updateNote ?key ?content (argTags a) now ?old = (ns', found)"
    by (cases "updateNote ?key ?content (argTags a) now ?old")
  let ?new = "\<lparr>Key = ?key, noteContent = ?content, noteTags = argTags a,
                noteCreatedAt = now, noteUpdatedAt = now\<rparr>"
  let ?ns = "if \<not> found then ns' @ [?new] else ns'"
  have st': "contents (fst (MemoryTool_save now a st)) = Parsed ?ns"
    using assms u by (simp add: MemoryTool_save_def WriteFile_def Let_def)
  have "\<exists>n. find (\<lambda>n. Key n = ?key) ?ns = Some n \<and> Key n = ?key \<and> noteContent n = ?content
       \<and> noteTags n = argTags a"
  proof (cases found)
    case True
    then have "updateNote ?key ?content (argTags a) now ?old = (ns', True)"
      using u by simp
    from updateNote_found [OF this] show ?thesis using True by simp
  next
    case False
    then have "updateNote ?key ?content (argTags a) now ?old = (ns', False)"
      using u by simp
    from updateNote_not_found [OF this] have "find (\<lambda>n. Key n = ?key) ns' = None"
      by simp
    then have "find (\<lambda>n. Key n = ?key) (ns' @ [?new]) = Some ?new"
      by (rule find_append_new) simp
    then show ?thesis using False by simp
  qed
  then obtain n where n: "find (\<lambda>n. Key n = ?key) ?ns = Some n" "Key n = ?key"
    "noteContent n = ?content" "noteTags n = argTags a"
    by blast
  show ?thesis
    unfolding MemoryTool_recall_def loadNotes_def st' using assms(2,4) n
    by (simp add: Let_def)
qed

text \<open>
  Notes: \<open>delete\<close> of a key that is in the file removes it and says so; after a
  \<open>delete\<close> the key is not in the file.
\<close>

lemma MemoryTool_del_present:
  assumes "contents st = Parsed ns" "writeErr st = None" "argString g ''key'' \<noteq> []"
    and "argString g ''key'' \<in> set (map Key ns)"
  shows "MemoryTool_del g st =
     (st\<lparr>contents := Parsed (filter (\<lambda>n. Key n \<noteq> argString g ''key'') ns)\<rparr>,
      SilentResult (''Note '' @ quoted (argString g ''key'') @ '' deleted''))"
proof -
  have "find (\<lambda>n. Key n = argString g ''key'') ns \<noteq> None"
    using assms(4) by (auto simp: find_None_iff)
  then show ?thesis using assms(1,2,3)
    by (simp add: MemoryTool_del_def Let_def WriteFile_def)
qed

lemma contents_MemoryTool_del:
  assumes "contents st = Parsed ns" "writeErr st = None" "argString g ''key'' \<noteq> []"
  shows "\<exists>ms. contents (fst (MemoryTool_del g st)) = Parsed ms
     \<and> writeErr (fst (MemoryTool_del g st)) = None
     \<and> find (\<lambda>n. Key n = argString g ''key'') ms = None"
proof (cases "find (\<lambda>n. Key n = argString g ''key'') ns")
  case None
  then show ?thesis using assms by (simp add: MemoryTool_del_def Let_def)
next
  case (Some n)
  then show ?thesis using assms
    by (simp add: MemoryTool_del_def Let_def WriteFile_def find_filter_not)
qed

text \<open>
  Notes: \<open>delete\<close> then \<open>recall\<close> finds nothing, with a file that parses and with no
  file at all.
\<close>

lemma MemoryTool_del_recall:
  assumes "contents st = Parsed ns \<or> contents st = NotExist e"
    and "writeErr st = None" "argString g ''key'' \<noteq> []"
  shows "MemoryTool_recall g (fst (MemoryTool_del g st)) =
     SilentResult (''No note found with key '' @ quoted (argString g ''key''))"
  using assms(1)
proof
  assume p: "contents st = Parsed ns"
  from contents_MemoryTool_del [OF p assms(2,3)] obtain ms where
    "contents (fst (MemoryTool_del g st)) = Parsed ms"
    "find (\<lambda>n. Key n = argString g ''key'') ms = None"
    by blast
  then show ?thesis using assms(3)
    by (simp add: MemoryTool_recall_def loadNotes_def Let_def)
next
  assume "contents st = NotExist e"
  then show ?thesis using assms(3)
    by (simp add: MemoryTool_recall_def MemoryTool_del_def loadNotes_def Let_def)
qed

text \<open>
  Notes: with a file that parses, a second \<open>delete\<close> changes nothing and says that
  nothing is found.
\<close>

lemma MemoryTool_del_del:
  assumes "contents st = Parsed ns" "writeErr st = None" "argString g ''key'' \<noteq> []"
  shows "MemoryTool_del g (fst (MemoryTool_del g st)) =
     (fst (MemoryTool_del g st),
      SilentResult (''No note found with key '' @ quoted (argString g ''key'')))"
proof -
  from contents_MemoryTool_del [OF assms] obtain ms where
    "contents (fst (MemoryTool_del g st)) = Parsed ms"
    "find (\<lambda>n. Key n = argString g ''key'') ms = None"
    by blast
  then show ?thesis using assms(3)
    by (simp add: MemoryTool_del_def [of g "fst (MemoryTool_del g st)"] Let_def)
qed

subsection \<open>Tasks\<close>

text \<open>
  Tasks: \<open>add\<close> then \<open>get\<close> of the id drawn returns the task, when the file is not
  corrupted and the id is not in it already.
\<close>

lemma TasksTool_add_get:
  assumes "contents st = Parsed ts \<or> (ts = [] \<and> (contents st = NotExist e \<or> contents st = ReadError e))"
    and "writeErr st = None"
    and "argString a ''title'' \<noteq> []"
    and "newID \<noteq> []" "newID \<notin> set (map ID ts)"
    and "argString g ''id'' = newID"
  shows "TasksTool_get today g (fst (TasksTool_add newID now a st)) =
     SilentResult (formatTask today
       \<lparr>ID = newID, Title = argString a ''title'', Description = argString a ''description'',
        Status = ''pending'',
        Priority = (if argString a ''priority'' = [] then ''medium''
                    else argString a ''priority''),
        DueDate = argString a ''due_date'', Tags = argTags a, Notes = argString a ''notes'',
        GoalID = argString a ''goal_id'', CreatedAt = now, UpdatedAt = now\<rparr>)"
proof -
  let ?task = "\<lparr>ID = newID, Title = argString a ''title'',
        Description = argString a ''description'', Status = ''pending'',
        Priority = (if argString a ''priority'' = [] then ''medium''
                    else argString a ''priority''),
        DueDate = argString a ''due_date'', Tags = argTags a, Notes = argString a ''notes'',
        GoalID = argString a ''goal_id'', CreatedAt = now, UpdatedAt = now\<rparr>"
  have st': "contents (fst (TasksTool_add newID now a st)) = Parsed (ts @ [?task])"
    using assms(1,2,3)
    by (auto simp: TasksTool_add_def saveTasks_def WriteFile_def Let_def)
  have "find (\<lambda>task. ID task = newID) ts = None"
    using assms(5) by (auto simp: find_None_iff)
  then have "find (\<lambda>task. ID task = newID) (ts @ [?task]) = Some ?task"
    by (rule find_append_new) simp
  then show ?thesis
    unfolding TasksTool_get_def loadTasks_def st' using assms(4,6)
    by (simp add: Let_def)
qed

text \<open>
  Tasks: \<open>delete\<close> of an id that is in the file removes it and says so; after a
  \<open>delete\<close> the id is not in the file.
\<close>

lemma TasksTool_del_present:
  assumes "contents st = Parsed ts" "writeErr st = None" "argString g ''id'' \<noteq> []"
    and "argString g ''id'' \<in> set (map ID ts)"
  shows "TasksTool_del g st =
     (st\<lparr>contents := Parsed (filter (\<lambda>task. ID task \<noteq> argString g ''id'') ts)\<rparr>,
      SilentResult (''Task '' @ quoted (argString g ''id'') @ '' deleted''))"
proof -
  have "find (\<lambda>task. ID task = argString g ''id'') ts \<noteq> None"
    using assms(4) by (auto simp: find_None_iff)
  then show ?thesis using assms(1,2,3)
    by (simp add: TasksTool_del_def Let_def saveTasks_def WriteFile_def)
qed

lemma contents_TasksTool_del:
  assumes "contents st = Parsed ts" "writeErr st = None" "argString g ''id'' \<noteq> []"
  shows "\<exists>ms. contents (fst (TasksTool_del g st)) = Parsed ms
     \<and> writeErr (fst (TasksTool_del g st)) = None
     \<and> find (\<lambda>task. ID task = argString g ''id'') ms = None"
proof (cases "find (\<lambda>task. ID task = argString g ''id'') ts")
  case None
  then show ?thesis using assms by (simp add: TasksTool_del_def Let_def)
next
  case (Some n)
  then show ?thesis using assms
    by (simp add: TasksTool_del_def Let_def saveTasks_def WriteFile_def find_filter_not)
qed

text \<open>
  Tasks: \<open>delete\<close> then \<open>get\<close> finds nothing, with a file that parses and with no file
  at all.
\<close>

lemma TasksTool_del_get:
  assumes "contents st = Parsed ts \<or> contents st = NotExist e"
    and "writeErr st = None" "argString g ''id'' \<noteq> []"
  shows "TasksTool_get today g (fst (TasksTool_del g st)) =
     SilentResult (''No task found with ID '' @ quoted (argString g ''id''))"
  using assms(1)
proof
  assume p: "contents st = Parsed ts"
  from contents_TasksTool_del [OF p assms(2,3)] obtain ms where
    "contents (fst (TasksTool_del g st)) = Parsed ms"
    "find (\<lambda>task. ID task = argString g ''id'') ms = None"
    by blast
  then show ?thesis using assms(3)
    by (simp add: TasksTool_get_def loadTasks_def Let_def)
next
  assume "contents st = NotExist e"
  then show ?thesis using assms(3)
    by (simp add: TasksTool_get_def TasksTool_del_def loadTasks_def Let_def)
qed

text \<open>
  Tasks: with a file that parses, a second \<open>delete\<close> changes nothing and says that
  nothing is found.
\<close>

lemma TasksTool_del_del:
  assumes "contents st = Parsed ts" "writeErr st = None" "argString g ''id'' \<noteq> []"
  shows "TasksTool_del g (fst (TasksTool_del g st)) =
     (fst (TasksTool_del g st),
      SilentResult (''No task found with ID '' @ quoted (argString g ''id'')))"
proof -
  from contents_TasksTool_del [OF assms] obtain ms where
    "contents (fst (TasksTool_del g st)) = Parsed ms"
    "find (\<lambda>task. ID task = argString g ''id'') ms = None"
    by blast
  then show ?thesis using assms(3)
    by (simp add: TasksTool_del_def [of g "fst (TasksTool_del g st)"] Let_def)
qed

subsection \<open>Delete with no file\<close>

lemma snippetArgs_simps:
  "argString snippetArgs ''name'' = ''pw''" "argString snippetArgs ''content'' = ''hunter2''"
  "argTags snippetArgs = [''x'']"
  by (simp_all add: snippetArgs_def argString_def argTags_def argTagsOk_def)

lemma noteArgs_simps:
  "argString noteArgs ''key'' = ''pw''" "argString noteArgs ''content'' = ''hunter2''"
  "argTags noteArgs = [''x'']"
  by (simp_all add: noteArgs_def argString_def argTags_def argTagsOk_def)

lemma taskIdArgs_simps: "argString taskIdArgs ''id'' = ''a1b2c3d4e5f6''"
  by (simp add: taskIdArgs_def argString_def)

text \<open>
  C5 fails on the code for notes and tasks while their file does not exist, as in a new
  workspace. \<open>loadNotes\<close> and \<open>loadTasks\<close> take a missing file for an empty list, and
  so \<open>recall\<close> and \<open>get\<close> report that nothing is found; \<open>SnippetTool.del\<close> does the
  same through \<open>loadSnippets\<close>. But \<open>MemoryTool.del\<close> and \<open>TasksTool.del\<close> read the
  file themselves and turn every read error into an error result: the first
  \<open>delete\<close> of a key and the second both return an error instead of reporting that
  nothing is found.
\<close>

theorem delete_with_no_file_is_error:
  "MemoryTool_del noteArgs noFile
     = (noFile, ErrorResult ''failed to load notes: no such file or directory'')
   \<and> MemoryTool_del noteArgs (fst (MemoryTool_del noteArgs noFile))
     = (noFile, ErrorResult ''failed to load notes: no such file or directory'')
   \<and> TasksTool_del taskIdArgs noFile
     = (noFile, ErrorResult ''failed to load tasks: no such file or directory'')
   \<and> TasksTool_del taskIdArgs (fst (TasksTool_del taskIdArgs noFile))
     = (noFile, ErrorResult ''failed to load tasks: no such file or directory'')
   \<and> SnippetTool_del snippetArgs (fst (SnippetTool_del snippetArgs noFile))
     = (noFile, SilentResult (''No snippet found with name '' @ quoted ''pw''))
   \<and> MemoryTool_recall noteArgs noFile
     = SilentResult (''No note found with key '' @ quoted ''pw'')
   \<and> TasksTool_get ''2024-06-10'' taskIdArgs noFile
     = SilentResult (''No task found with ID '' @ quoted ''a1b2c3d4e5f6'')"
proof -
  have n: "MemoryTool_del noteArgs noFile
     = (noFile, ErrorResult ''failed to load notes: no such file or directory'')"
    by (simp add: MemoryTool_del_def noteArgs_simps noFile_def Let_def)
  have t: "TasksTool_del taskIdArgs noFile
     = (noFile, ErrorResult ''failed to load tasks: no such file or directory'')"
    by (simp add: TasksTool_del_def taskIdArgs_simps noFile_def Let_def)
  have s: "SnippetTool_del snippetArgs noFile
     = (noFile, SilentResult (''No snippet found with name '' @ quoted ''pw''))"
    by (simp add: SnippetTool_del_def loadSnippets_def snippetArgs_simps noFile_def Let_def)
  have r: "MemoryTool_recall noteArgs noFile
     = SilentResult (''No note found with key '' @ quoted ''pw'')"
    by (simp add: MemoryTool_recall_def loadNotes_def noteArgs_simps noFile_def Let_def)
  have g: "TasksTool_get ''2024-06-10'' taskIdArgs noFile
     = SilentResult (''No task found with ID '' @ quoted ''a1b2c3d4e5f6'')"
    by (simp add: TasksTool_get_def loadTasks_def taskIdArgs_simps noFile_def Let_def)
  show ?thesis by (simp add: n t s r g)
qed

end
